theory Spec2Isabelle
  imports
    Main
    "HOL-Library.Char_ord"
    "HOL-Library.List_Lexorder"
    "HOL-Library.Product_Lexorder"
    "HOL-Library.Multiset"
begin

section \<open>The platform the file managers run on\<close>

text \<open>
  The repository holds desktop file managers: \<^verbatim>\<open>file_manager.py\<close> (class
  \<^verbatim>\<open>FileManager\<close>, Tkinter), \<^verbatim>\<open>files.py\<close> (class \<^verbatim>\<open>ModernFileExplorer\<close>, PyQt6) and
  \<^verbatim>\<open>files - Copy (2).py\<close> (classes \<^verbatim>\<open>ThumbnailCache\<close> and \<^verbatim>\<open>ModernFileManager\<close>,
  PyQt6). Their logic is a thin layer over calls into \<^verbatim>\<open>os\<close>, \<^verbatim>\<open>os.path\<close>,
  \<^verbatim>\<open>pathlib\<close>, Pillow and Qt. Those calls are not code of the repository, so the
  model takes their results as parameters: one record for the Python runtime and the
  file system, one for the imaging libraries. The one call whose outcome depends on no
  state at all, because the source passes it a value of the wrong type, is modelled by
  that outcome. Everything the repository's own code
  does with the results (sorting, the \<^verbatim>\<open>try\<close>/\<^verbatim>\<open>except\<close> structure, the cache, the
  guards of the navigation) is modelled as written.

  Names and paths are Python \<^verbatim>\<open>str\<close> values, modelled as \<^typ>\<open>string\<close>. Python compares
  strings lexicographically by code point; on the UTF-8 bytes of a string that is the
  lexicographic order of the bytes, which is the order of \<^typ>\<open>string\<close> used here.
\<close>

type_synonym path = string

text \<open>
  The exceptions of the operating-system calls (\<^verbatim>\<open>os.listdir\<close>, \<^verbatim>\<open>os.path.getsize\<close>,
  \<^verbatim>\<open>Path.iterdir\<close>, \<^verbatim>\<open>Path.is_dir\<close>) are all instances of Python's \<^verbatim>\<open>OSError\<close>;
  the constructor \<open>OSError\<close> stands for any instance that is none of the three named
  subclasses.
\<close>

datatype os_error = PermissionError | FileNotFoundError | NotADirectoryError | OSError

text \<open>
  The imaging libraries may raise anything; every exception they raise is an instance of
  Python's \<^verbatim>\<open>Exception\<close>. \<open>Exception\<close> stands for any instance that is neither an
  \<^verbatim>\<open>OSError\<close> nor a \<^verbatim>\<open>TypeError\<close>.
\<close>

datatype exception = OSErr os_error | TypeError | Exception

record runtime =
  listdir :: "path \<Rightarrow> os_error + string list"
    \<comment> \<open>\<^verbatim>\<open>os.listdir(p)\<close>: the child names, in the order the file system enumerates them\<close>
  isdir :: "path \<Rightarrow> bool"
    \<comment> \<open>\<^verbatim>\<open>os.path.isdir(p)\<close>; it never raises\<close>
  getsize :: "path \<Rightarrow> os_error + nat"
    \<comment> \<open>\<^verbatim>\<open>os.path.getsize(p)\<close>\<close>
  join :: "path \<Rightarrow> string \<Rightarrow> path"
    \<comment> \<open>\<^verbatim>\<open>os.path.join(p, name)\<close>\<close>
  dirname :: "path \<Rightarrow> path"
    \<comment> \<open>\<^verbatim>\<open>os.path.dirname(p)\<close>\<close>
  lower :: "string \<Rightarrow> string"
    \<comment> \<open>\<^verbatim>\<open>s.lower()\<close>\<close>
  Path_iterdir :: "path \<Rightarrow> os_error + path list"
    \<comment> \<open>\<^verbatim>\<open>Path(p).iterdir()\<close>: the children, each as the string of its path\<close>
  Path_is_dir :: "path \<Rightarrow> os_error + bool"
    \<comment> \<open>\<^verbatim>\<open>p.is_dir()\<close>; unlike \<^verbatim>\<open>os.path.isdir\<close> it re-raises some errors\<close>
  Path_name :: "path \<Rightarrow> string"
    \<comment> \<open>\<^verbatim>\<open>p.name\<close>\<close>
  Path_suffix :: "path \<Rightarrow> string"
    \<comment> \<open>\<^verbatim>\<open>p.suffix\<close>\<close>
  Path_parent :: "path \<Rightarrow> path"
    \<comment> \<open>\<^verbatim>\<open>str(Path(p).parent)\<close>\<close>

subsection \<open>Pixmaps\<close>

text \<open>
  A \<^verbatim>\<open>QPixmap\<close> is null or holds pixels: a label for where they come from, a width and
  a height.
\<close>

datatype pixmap = NullPixmap | Pixmap string nat nat

fun isNull :: "pixmap \<Rightarrow> bool" where
  "isNull NullPixmap = True"
| "isNull (Pixmap src w h) = False"

fun pixmap_size :: "pixmap \<Rightarrow> nat \<times> nat" where
  "pixmap_size NullPixmap = (0, 0)"
| "pixmap_size (Pixmap src w h) = (w, h)"

text \<open>
  \<^verbatim>\<open>pix.scaled(w, h, Qt.AspectRatioMode.KeepAspectRatio, ...)\<close> is a call into Qt.
  Qt documents it: the pixmap is scaled to a rectangle as large as possible inside the
  given size, preserving the aspect ratio. The two functions below follow Qt's
  \<^verbatim>\<open>QSize::scaled\<close> and \<^verbatim>\<open>QPixmap::scaled\<close> for that mode, integer division included:
  the width that the target height would give is tried first, and the target width is
  used when that width does not fit. A side never gets shorter than one pixel, and an
  empty target gives the null pixmap.
\<close>

fun QSize_scaled :: "nat \<times> nat \<Rightarrow> nat \<times> nat \<Rightarrow> nat \<times> nat" where
  "QSize_scaled (wd, ht) (sw, sh) =
     (if wd = 0 \<or> ht = 0 then (sw, sh)
      else let rw = sh * wd div ht
           in if rw \<le> sw then (rw, sh) else (sw, sw * ht div wd))"

fun scaled :: "pixmap \<Rightarrow> nat \<times> nat \<Rightarrow> pixmap" where
  "scaled NullPixmap s = NullPixmap"
| "scaled (Pixmap src w h) (sw, sh) =
     (if sw = 0 \<or> sh = 0 then NullPixmap
      else case QSize_scaled (w, h) (sw, sh) of
             (nw, nh) \<Rightarrow> Pixmap src (max nw 1) (max nh 1))"

record imaging =
  Image :: bool
    \<comment> \<open>whether \<^verbatim>\<open>from PIL import Image\<close> succeeded; \<open>False\<close> is \<^verbatim>\<open>Image = None\<close>\<close>
  Image_open :: "path \<Rightarrow> exception + nat \<times> nat"
    \<comment> \<open>\<^verbatim>\<open>Image.open(path)\<close>: a Pillow image, of which only the size is kept\<close>
  Image_thumbnail :: "nat \<times> nat \<Rightarrow> nat \<times> nat \<Rightarrow> exception + nat \<times> nat"
    \<comment> \<open>\<^verbatim>\<open>img.thumbnail(size)\<close>: the image after the in-place resize\<close>
  Image_tobytes :: "nat \<times> nat \<Rightarrow> exception + nat list"
    \<comment> \<open>\<^verbatim>\<open>img.convert('RGBA').tobytes('raw', 'RGBA')\<close>\<close>
  QPixmap :: "path \<Rightarrow> pixmap"
    \<comment> \<open>\<^verbatim>\<open>QPixmap(path)\<close>: null when Qt cannot load the file\<close>
  fromTheme_pixmap :: "string \<Rightarrow> nat \<times> nat \<Rightarrow> pixmap"
    \<comment> \<open>\<^verbatim>\<open>QIcon.fromTheme(name).pixmap(w, h)\<close>\<close>

section \<open>\<^verbatim>\<open>ThumbnailCache\<close> (files - Copy (2).py)\<close>

record ThumbnailCache =
  cache :: "path \<times> nat \<times> nat \<rightharpoonup> pixmap"
  thumb_size :: "nat \<times> nat"

text \<open>\<^verbatim>\<open>ThumbnailCache.__init__\<close>: an empty dictionary and the given size.\<close>

definition ThumbnailCache_init :: "nat \<times> nat \<Rightarrow> ThumbnailCache" where
  "ThumbnailCache_init sz = \<lparr>cache = Map.empty, thumb_size = sz\<rparr>"

text \<open>
  Line 83 of \<^verbatim>\<open>_make_thumbnail\<close> is
  \<^verbatim>\<open>qimg = QPixmap.fromImage(QPixmap.fromImage(QPixmap()).toImage())\<close>.
  \<^verbatim>\<open>QPixmap.fromImage\<close> takes a \<^verbatim>\<open>QImage\<close>; the inner call passes it the \<^verbatim>\<open>QPixmap\<close>
  that \<^verbatim>\<open>QPixmap()\<close> constructs, and PyQt6 rejects that argument with a \<^verbatim>\<open>TypeError\<close>.
  The expression takes nothing from the method's arguments or from the files, so it
  raises on every call.
\<close>

definition QPixmap_fromImage_of_QPixmap :: "exception + pixmap" where
  "QPixmap_fromImage_of_QPixmap = Inl TypeError"

text \<open>
  The body of the \<^verbatim>\<open>try\<close> block of \<^verbatim>\<open>_make_thumbnail\<close>, statement by statement.
  Beside its outcome it returns the files it opened, one entry for each call that takes
  the path (\<^verbatim>\<open>Image.open(path)\<close>, \<^verbatim>\<open>QPixmap(path)\<close>). The values of \<^verbatim>\<open>img\<close>,
  \<^verbatim>\<open>data\<close> and \<^verbatim>\<open>qimg\<close> are computed and not used, as in the source; the statements
  after line 83 load the pixmap from the file with Qt and scale it with Qt.
\<close>

definition make_thumbnail_try :: "imaging \<Rightarrow> nat \<times> nat \<Rightarrow> path \<Rightarrow> (exception + pixmap) \<times> path list" where
  "make_thumbnail_try im sz p =
     (case Image_open im p of
        Inl e \<Rightarrow> (Inl e, [p])
      | Inr img \<Rightarrow>
     (case Image_thumbnail im img sz of
        Inl e \<Rightarrow> (Inl e, [p])
      | Inr img' \<Rightarrow>
     (case Image_tobytes im img' of
        Inl e \<Rightarrow> (Inl e, [p])
      | Inr data \<Rightarrow>
     (case QPixmap_fromImage_of_QPixmap of
        Inl e \<Rightarrow> (Inl e, [p])
      | Inr qimg \<Rightarrow>
          (let pix = QPixmap im p
           in if isNull pix then (Inr (fromTheme_pixmap im ''image-x-generic'' sz), [p, p])
              else (Inr (scaled pix sz), [p, p]))))))"

text \<open>
  \<^verbatim>\<open>ThumbnailCache._make_thumbnail\<close>: without Pillow the generic text icon; otherwise the
  \<^verbatim>\<open>try\<close> block, with \<^verbatim>\<open>except Exception\<close> turning every exception into the generic
  text icon.
\<close>

definition make_thumbnail :: "imaging \<Rightarrow> ThumbnailCache \<Rightarrow> path \<Rightarrow> (exception + pixmap) \<times> path list" where
  "make_thumbnail im self p =
     (if \<not> Image im then (Inr (fromTheme_pixmap im ''text-x-generic'' (thumb_size self)), [])
      else case make_thumbnail_try im (thumb_size self) p of
             (Inl e, opened) \<Rightarrow> (Inr (fromTheme_pixmap im ''text-x-generic'' (thumb_size self)), opened)
           | (Inr pix, opened) \<Rightarrow> (Inr pix, opened))"

text \<open>
  \<^verbatim>\<open>ThumbnailCache.get\<close>: the outcome, the cache object after the call, and the files
  opened during the call.
\<close>

definition get :: "imaging \<Rightarrow> ThumbnailCache \<Rightarrow> path \<Rightarrow> (exception + pixmap) \<times> ThumbnailCache \<times> path list" where
  "get im self p =
     (let key = (p, thumb_size self)
      in case cache self key of
           Some pix \<Rightarrow> (Inr pix, self, [])
         | None \<Rightarrow>
             (case make_thumbnail im self p of
                (Inl e, opened) \<Rightarrow> (Inl e, self, opened)
              | (Inr pix, opened) \<Rightarrow> (Inr pix, self\<lparr>cache := (cache self)(key \<mapsto> pix)\<rparr>, opened)))"

text \<open>
  A run of calls of \<^verbatim>\<open>get\<close> on one cache object, each with the state of the libraries
  and of the files at the time of the call; it stops at the first call that raises.
\<close>

fun gets :: "(imaging \<times> path) list \<Rightarrow> ThumbnailCache \<Rightarrow> exception + ThumbnailCache" where
  "gets [] self = Inr self"
| "gets ((im, p) # calls) self =
     (case get im self p of
        (Inl e, self', opened) \<Rightarrow> Inl e
      | (Inr pix, self', opened) \<Rightarrow> gets calls self')"

section \<open>\<^verbatim>\<open>FileManager\<close> (file_manager.py)\<close>

text \<open>
  The text of the size column: the empty string for a folder, the formatted size for a
  file (\<open>KB n\<close> stands for the text \<^verbatim>\<open>f"{n / 1024:.1f} KB"\<close> of a file of \<open>n\<close> bytes; the
  formatting of the number is floating point and is left uninterpreted), and \<^verbatim>\<open>"N/A"\<close>.
\<close>

datatype size_text = Blank | KB nat | NA

text \<open>A message box that was shown: \<^verbatim>\<open>messagebox.showerror(title, message)\<close> of Tkinter,
  and \<^verbatim>\<open>QMessageBox.warning(self, title, f'{message}{e}')\<close> of Qt with the exception that
  is put into the message.\<close>

datatype dialog = showerror string string | warning string string os_error

type_synonym row = "string \<times> size_text \<times> string"

record FileManager =
  current_path :: path
  path_label :: string
  tree :: "row list"
  dialogs :: "dialog list"

text \<open>One turn of the loop of \<^verbatim>\<open>refresh_file_list\<close>: the row of an item.\<close>

definition make_row :: "runtime \<Rightarrow> path \<Rightarrow> string \<Rightarrow> row" where
  "make_row os cur item =
     (let full_path = join os cur item;
          is_dir = isdir os full_path;
          size = (if \<not> is_dir
                  then (case getsize os full_path of Inr n \<Rightarrow> KB n | Inl e \<Rightarrow> NA)
                  else Blank);
          item_type = (if is_dir then ''Folder'' else ''File'')
      in (item, size, item_type))"

text \<open>The loop \<^verbatim>\<open>for item in items: ... self.tree.insert("", tk.END, values=...)\<close>.\<close>

fun insert_items :: "runtime \<Rightarrow> string list \<Rightarrow> FileManager \<Rightarrow> FileManager" where
  "insert_items os [] self = self"
| "insert_items os (item # items) self =
     insert_items os items (self\<lparr>tree := tree self @ [make_row os (current_path self) item]\<rparr>)"

text \<open>The key of \<^verbatim>\<open>items.sort\<close>: \<^verbatim>\<open>(not os.path.isdir(os.path.join(cur, x)), x.lower())\<close>.
  Python's \<^verbatim>\<open>list.sort\<close> is stable, as is \<^const>\<open>sort_key\<close>.\<close>

definition item_key :: "runtime \<Rightarrow> path \<Rightarrow> string \<Rightarrow> bool \<times> string" where
  "item_key os cur x = (\<not> isdir os (join os cur x), lower os x)"

text \<open>
  \<^verbatim>\<open>FileManager.refresh_file_list\<close> (the second definition of the class, which is the one
  in force). The result is the object after the call and the exception that left the
  method, if one did. Only \<^verbatim>\<open>PermissionError\<close> is caught.
\<close>

definition refresh_file_list :: "runtime \<Rightarrow> FileManager \<Rightarrow> FileManager \<times> os_error option" where
  "refresh_file_list os self =
     (let self1 = self\<lparr>tree := [], path_label := current_path self\<rparr>
      in case listdir os (current_path self1) of
           Inl PermissionError \<Rightarrow>
             (self1\<lparr>dialogs := dialogs self1 @ [showerror ''Error'' ''Permission Denied'']\<rparr>, None)
         | Inl e \<Rightarrow> (self1, Some e)
         | Inr items \<Rightarrow>
             (insert_items os (sort_key (item_key os (current_path self1)) items) self1, None))"

text \<open>\<^verbatim>\<open>FileManager.go_up\<close>.\<close>

definition go_up :: "runtime \<Rightarrow> FileManager \<Rightarrow> FileManager \<times> os_error option" where
  "go_up os self =
     (let parent_path = dirname os (current_path self)
      in if parent_path \<noteq> current_path self
         then refresh_file_list os (self\<lparr>current_path := parent_path\<rparr>)
         else (self, None))"

section \<open>\<^verbatim>\<open>ModernFileExplorer\<close> (files.py)\<close>

text \<open>The text of the status bar: with the counts of folders and files, or the path alone.\<close>

datatype status = Counted nat nat path | Current path | Message string

record ModernFileExplorer =
  explorer_path :: path
    \<comment> \<open>\<^verbatim>\<open>self.current_path\<close>\<close>
  address_bar :: string
  list_view_root :: path
    \<comment> \<open>the path of the root index of \<^verbatim>\<open>self.list_view\<close>\<close>
  tree_view_current :: path
    \<comment> \<open>the path of the current index of \<^verbatim>\<open>self.tree_view\<close>\<close>
  status_label :: status

text \<open>\<^verbatim>\<open>ModernFileExplorer.update_status()\<close> without a message: the bare \<^verbatim>\<open>except\<close>
  catches every error of \<^verbatim>\<open>os.listdir\<close>.\<close>

definition update_status :: "runtime \<Rightarrow> ModernFileExplorer \<Rightarrow> ModernFileExplorer" where
  "update_status os self =
     (case listdir os (explorer_path self) of
        Inr items \<Rightarrow>
          (let dirs = length (filter (\<lambda>item. isdir os (join os (explorer_path self) item)) items);
               files = length items - dirs
           in self\<lparr>status_label := Counted dirs files (explorer_path self)\<rparr>)
      | Inl e \<Rightarrow> self\<lparr>status_label := Current (explorer_path self)\<rparr>)"

text \<open>\<^verbatim>\<open>ModernFileExplorer.go_up\<close>.\<close>

definition explorer_go_up :: "runtime \<Rightarrow> ModernFileExplorer \<Rightarrow> ModernFileExplorer" where
  "explorer_go_up os self =
     (let parent = Path_parent os (explorer_path self)
      in if parent \<noteq> explorer_path self
         then update_status os
                (self\<lparr>explorer_path := parent, address_bar := parent,
                      list_view_root := parent, tree_view_current := parent\<rparr>)
         else self)"

section \<open>\<^verbatim>\<open>ModernFileManager\<close> (files - Copy (2).py)\<close>

datatype icon = ThemeIcon string | PixmapIcon pixmap

text \<open>A \<^verbatim>\<open>QListWidgetItem\<close>: its text, its icon and its user data.\<close>

type_synonym item = "string \<times> icon \<times> path"

record ModernFileManager =
  list_model :: "item list"
  thumb_cache :: ThumbnailCache
  warnings :: "dialog list"

text \<open>
  \<^verbatim>\<open>sorted(entries, key=...)\<close> computes the key of every entry, in order, before it
  compares any; a key that raises ends the call. The key of \<^verbatim>\<open>populate_list\<close> is
  \<^verbatim>\<open>(not p.is_dir(), p.name.lower())\<close>.
\<close>

fun entry_keys :: "runtime \<Rightarrow> path list \<Rightarrow> os_error + (bool \<times> string) list" where
  "entry_keys os [] = Inr []"
| "entry_keys os (p # ps) =
     (case Path_is_dir os p of
        Inl e \<Rightarrow> Inl e
      | Inr d \<Rightarrow>
          (case entry_keys os ps of
             Inl e \<Rightarrow> Inl e
           | Inr ks \<Rightarrow> Inr ((\<not> d, lower os (Path_name os p)) # ks)))"

definition sorted_entries :: "runtime \<Rightarrow> path \<Rightarrow> os_error + path list" where
  "sorted_entries os p =
     (case Path_iterdir os p of
        Inl e \<Rightarrow> Inl e
      | Inr ps \<Rightarrow>
          (case entry_keys os ps of
             Inl e \<Rightarrow> Inl e
           | Inr ks \<Rightarrow> Inr (map snd (sort_key fst (zip ks ps)))))"

definition image_suffixes :: "string list" where
  "image_suffixes = [''.png'', ''.jpg'', ''.jpeg'', ''.bmp'', ''.gif'', ''.webp'']"

definition icon_of :: "pixmap \<Rightarrow> icon" where
  "icon_of pix = (if \<not> isNull pix then PixmapIcon pix else ThemeIcon ''text-x-generic'')"

text \<open>The loop \<^verbatim>\<open>for p in entries\<close> of \<^verbatim>\<open>populate_list\<close>; it is outside the \<^verbatim>\<open>try\<close>
  block, so an exception leaves the method with the items added so far.\<close>

fun add_entries :: "runtime \<Rightarrow> imaging \<Rightarrow> path list \<Rightarrow> ModernFileManager \<Rightarrow> ModernFileManager \<times> exception option" where
  "add_entries os im [] self = (self, None)"
| "add_entries os im (p # ps) self =
     (case Path_is_dir os p of
        Inl e \<Rightarrow> (self, Some (OSErr e))
      | Inr True \<Rightarrow>
          add_entries os im ps
            (self\<lparr>list_model := list_model self @ [(Path_name os p, ThemeIcon ''folder'', p)]\<rparr>)
      | Inr False \<Rightarrow>
          (if lower os (Path_suffix os p) \<in> set image_suffixes
           then (case get im (thumb_cache self) p of
                   (Inl e, tc, opened) \<Rightarrow> (self\<lparr>thumb_cache := tc\<rparr>, Some e)
                 | (Inr pix, tc, opened) \<Rightarrow>
                     add_entries os im ps
                       (self\<lparr>thumb_cache := tc,
                             list_model := list_model self @ [(Path_name os p, icon_of pix, p)]\<rparr>))
           else add_entries os im ps
                  (self\<lparr>list_model := list_model self @ [(Path_name os p, icon_of NullPixmap, p)]\<rparr>)))"

text \<open>\<^verbatim>\<open>ModernFileManager.populate_list\<close>: every exception of the listing and of the
  sorting is caught and shown in a warning.\<close>

definition populate_list :: "runtime \<Rightarrow> imaging \<Rightarrow> ModernFileManager \<Rightarrow> path \<Rightarrow> ModernFileManager \<times> exception option" where
  "populate_list os im self p =
     (let self1 = self\<lparr>list_model := []\<rparr>
      in case sorted_entries os p of
           Inl e \<Rightarrow>
             (self1\<lparr>warnings := warnings self1 @ [warning ''Error'' ''Could not list directory: '' e]\<rparr>, None)
         | Inr entries \<Rightarrow> add_entries os im entries self1)"

section \<open>A POSIX platform with ASCII names\<close>

text \<open>
  Instances of the platform functions, for running the model on examples:
  \<^verbatim>\<open>posixpath.join\<close> for two arguments, \<^verbatim>\<open>posixpath.dirname\<close>, and \<^verbatim>\<open>str.lower\<close> on
  ASCII strings.
\<close>

definition posix_join :: "path \<Rightarrow> string \<Rightarrow> path" where
  "posix_join a b =
     (if b \<noteq> [] \<and> hd b = CHR ''/'' then b
      else if a = [] \<or> last a = CHR ''/'' then a @ b
      else a @ ''/'' @ b)"

definition posix_dirname :: "path \<Rightarrow> path" where
  "posix_dirname p =
     (let head = rev (dropWhile (\<lambda>c. c \<noteq> CHR ''/'') (rev p))
      in if head \<noteq> [] \<and> \<not> list_all (\<lambda>c. c = CHR ''/'') head
         then rev (dropWhile (\<lambda>c. c = CHR ''/'') (rev head))
         else head)"

definition ascii_lower_char :: "char \<Rightarrow> char" where
  "ascii_lower_char c =
     (if CHR ''A'' \<le> c \<and> c \<le> CHR ''Z'' then char_of (of_char c + (32::nat)) else c)"

definition ascii_lower :: "string \<Rightarrow> string" where
  "ascii_lower s = map ascii_lower_char s"

text \<open>A platform is given by its directories; the \<^verbatim>\<open>pathlib\<close> calls are derived from
  the \<^verbatim>\<open>os\<close> calls.\<close>

definition posix_name :: "path \<Rightarrow> string" where
  "posix_name p = rev (takeWhile (\<lambda>c. c \<noteq> CHR ''/'') (rev p))"

definition posix_runtime ::
  "(path \<Rightarrow> os_error + string list) \<Rightarrow> (path \<Rightarrow> bool) \<Rightarrow> (path \<Rightarrow> os_error + nat) \<Rightarrow> runtime" where
  "posix_runtime ls dir sz =
     \<lparr>listdir = ls, isdir = dir, getsize = sz, join = posix_join, dirname = posix_dirname,
      lower = ascii_lower,
      Path_iterdir = (\<lambda>p. case ls p of Inl e \<Rightarrow> Inl e | Inr names \<Rightarrow> Inr (map (posix_join p) names)),
      Path_is_dir = (\<lambda>p. Inr (dir p)),
      Path_name = posix_name,
      Path_suffix = (\<lambda>p. let n = posix_name p; s = rev (takeWhile (\<lambda>c. c \<noteq> CHR ''.'') (rev n))
                          in if length s < length n - 1 \<and> s \<noteq> [] then CHR ''.'' # s else []),
      Path_parent = (\<lambda>p. if posix_dirname p = [] then ''.'' else posix_dirname p)\<rparr>"

section \<open>Notions used in the statements\<close>

text \<open>The value of \<^verbatim>\<open>p.is_dir()\<close> where it returns; the key of an entry of
  \<^verbatim>\<open>populate_list\<close> written with it; the text and the user data of an item.\<close>

definition is_dir_of :: "runtime \<Rightarrow> path \<Rightarrow> bool" where
  "is_dir_of os p = (case Path_is_dir os p of Inr d \<Rightarrow> d | Inl e \<Rightarrow> False)"

definition entry_key :: "runtime \<Rightarrow> path \<Rightarrow> bool \<times> string" where
  "entry_key os p = (\<not> is_dir_of os p, lower os (Path_name os p))"

definition text_data :: "item \<Rightarrow> string \<times> path" where
  "text_data it = (fst it, snd (snd it))"

section \<open>Example platforms\<close>

text \<open>The directory of the specification's scenario: \<^verbatim>\<open>B.txt\<close> of 10 bytes, the folder
  \<^verbatim>\<open>a_folder\<close> and \<^verbatim>\<open>A.txt\<close> of 5 bytes, enumerated in that order.\<close>

definition demo :: runtime where
  "demo = posix_runtime
     (\<lambda>p. if p = ''/demo'' then Inr [''B.txt'', ''a_folder'', ''A.txt''] else Inl FileNotFoundError)
     (\<lambda>p. p = ''/demo/a_folder'' \<or> p = ''/demo'')
     (\<lambda>p. if p = ''/demo/B.txt'' then Inr 10 else if p = ''/demo/A.txt'' then Inr 5
           else Inl FileNotFoundError)"

definition fm0 :: "path \<Rightarrow> FileManager" where
  "fm0 p = \<lparr>current_path = p, path_label = p, tree = [], dialogs = []\<rparr>"

definition tc0 :: ThumbnailCache where
  "tc0 = ThumbnailCache_init (128, 128)"

definition mfm0 :: ModernFileManager where
  "mfm0 = \<lparr>list_model = [], thumb_cache = tc0, warnings = []\<rparr>"

text \<open>Imaging libraries given by whether Pillow is installed, what \<^verbatim>\<open>Image.open\<close> does
  and what \<^verbatim>\<open>QPixmap(path)\<close> loads; the icon theme has a pixmap of the requested size
  for every name.\<close>

definition desktop_imaging ::
  "bool \<Rightarrow> (path \<Rightarrow> exception + nat \<times> nat) \<Rightarrow> (path \<Rightarrow> pixmap) \<Rightarrow> imaging" where
  "desktop_imaging pil open_image load =
     \<lparr>Image = pil, Image_open = open_image,
      Image_thumbnail = (\<lambda>img sz. Inr (if fst img \<le> fst sz \<and> snd img \<le> snd sz then img
                                        else QSize_scaled img sz)),
      Image_tobytes = (\<lambda>img. Inr (replicate (4 * fst img * snd img) 0)),
      QPixmap = load,
      fromTheme_pixmap = (\<lambda>name sz. Pixmap name (fst sz) (snd sz))\<rparr>"

definition no_images :: imaging where
  "no_images = desktop_imaging True (\<lambda>p. Inl (OSErr FileNotFoundError)) (\<lambda>p. NullPixmap)"

text \<open>A platform with an unreadable directory \<^verbatim>\<open>/locked\<close> and a regular file
  \<^verbatim>\<open>/notes.txt\<close>; every other path is missing.\<close>

definition locked :: runtime where
  "locked = posix_runtime
     (\<lambda>p. if p = ''/locked'' then Inl PermissionError
           else if p = ''/notes.txt'' then Inl NotADirectoryError else Inl FileNotFoundError)
     (\<lambda>p. p = ''/locked'')
     (\<lambda>p. if p = ''/notes.txt'' then Inr 12 else Inl FileNotFoundError)"

text \<open>A directory \<^verbatim>\<open>/ro\<close> that may be read and not searched (mode \<^verbatim>\<open>r--\<close>), with a
  folder \<^verbatim>\<open>sub\<close> and a file \<^verbatim>\<open>a.txt\<close>: the names can be enumerated and no child can be
  examined. \<^verbatim>\<open>os.path.isdir\<close> answers \<open>False\<close> for both children, and
  \<^verbatim>\<open>os.path.getsize\<close> and \<^verbatim>\<open>Path.is_dir\<close> raise \<^verbatim>\<open>PermissionError\<close> for them.\<close>

definition unsearchable :: runtime where
  "unsearchable =
     (posix_runtime
        (\<lambda>p. if p = ''/ro'' then Inr [''sub'', ''a.txt''] else Inl FileNotFoundError)
        (\<lambda>p. p = ''/ro'')
        (\<lambda>p. Inl PermissionError))
     \<lparr>Path_is_dir := (\<lambda>p. if p = ''/ro'' then Inr True else Inl PermissionError)\<rparr>"

text \<open>A directory with a file of 2048 bytes and a symbolic link whose target is gone.\<close>

definition dangling :: runtime where
  "dangling = posix_runtime
     (\<lambda>p. if p = ''/links'' then Inr [''ok.txt'', ''dangling''] else Inl FileNotFoundError)
     (\<lambda>p. p = ''/links'')
     (\<lambda>p. if p = ''/links/ok.txt'' then Inr 2048 else Inl FileNotFoundError)"


definition explorer0 :: "path \<Rightarrow> ModernFileExplorer" where
  "explorer0 p = \<lparr>explorer_path = p, address_bar = p, list_view_root = p,
                  tree_view_current = p, status_label = Current p\<rparr>"

text \<open>Imaging libraries over a folder of pictures: \<^verbatim>\<open>small.png\<close> of 64 by 32 pixels
  and \<^verbatim>\<open>large.jpg\<close> of 4000 by 3000 pixels, which Pillow and Qt both read, and
  \<^verbatim>\<open>scan.pcx\<close>, which Pillow opens and Qt cannot load; Pillow rejects every other
  file.\<close>

definition photos :: imaging where
  "photos = desktop_imaging True
     (\<lambda>p. if p = ''/pics/small.png'' then Inr (64, 32)
           else if p = ''/pics/large.jpg'' then Inr (4000, 3000)
           else if p = ''/pics/scan.pcx'' then Inr (100, 100)
           else Inl Exception)
     (\<lambda>p. if p = ''/pics/small.png'' then Pixmap p 64 32
           else if p = ''/pics/large.jpg'' then Pixmap p 4000 3000
           else NullPixmap)"

text \<open>The libraries at a time when no file can be read as an image.\<close>

definition corrupted :: imaging where
  "corrupted = desktop_imaging True (\<lambda>p. Inl (OSErr OSError)) (\<lambda>p. NullPixmap)"

text \<open>The libraries at a time when every file is a picture of 10 by 10 pixels.\<close>

definition repaired :: imaging where
  "repaired = desktop_imaging True (\<lambda>p. Inr (10, 10)) (\<lambda>p. Pixmap p 10 10)"

text \<open>A desktop without Pillow.\<close>

definition no_pillow :: imaging where
  "no_pillow = desktop_imaging False (\<lambda>p. Inl Exception)
     (\<lambda>p. if p = ''/pics/small.png'' then Pixmap p 64 32 else NullPixmap)"

section \<open>The directory listing\<close>

subsection \<open>The loop and the sort of \<^verbatim>\<open>refresh_file_list\<close>\<close>

lemma insert_items_eq:
  "insert_items os items self =
     self\<lparr>tree := tree self @ map (make_row os (current_path self)) items\<rparr>"
  by (induction items arbitrary: self) simp_all

lemma fst_make_row: "fst (make_row os cur x) = x"
  by (simp add: make_row_def Let_def)

lemma map_fst_make_row: "map fst (map (make_row os cur) xs) = xs"
  by (induction xs) (simp_all add: fst_make_row)

lemma refresh_file_list_ok:
  assumes "listdir os (current_path self) = Inr items"
  shows "refresh_file_list os self =
           (self\<lparr>tree := map (make_row os (current_path self))
                             (sort_key (item_key os (current_path self)) items),
                  path_label := current_path self\<rparr>, None)"
  using assms by (simp add: refresh_file_list_def insert_items_eq)

lemma refresh_file_list_names:
  assumes "listdir os (current_path self) = Inr items"
  shows "\<exists>self'. refresh_file_list os self = (self', None) \<and>
           map fst (tree self') = sort_key (item_key os (current_path self)) items"
  by (simp add: refresh_file_list_ok[OF assms] map_fst_make_row del: map_map)

subsection \<open>Lists sorted by a pair of a flag and a name\<close>

text \<open>A list sorted by the key \<open>(\<not> d x, l x)\<close> has the elements with \<open>d\<close> first, and
  each part is sorted by \<open>l\<close>.\<close>

lemma dirs_first_split:
  "sorted (map (\<lambda>x. (\<not> d x, l x)) xs) \<Longrightarrow> xs = filter d xs @ filter (\<lambda>x. \<not> d x) xs"
proof (induction xs)
  case Nil
  then show ?case by simp
next
  case (Cons a xs)
  then have IH: "xs = filter d xs @ filter (\<lambda>x. \<not> d x) xs" by simp
  show ?case
  proof (cases "d a")
    case True
    then show ?thesis using IH by simp
  next
    case False
    have "\<forall>x\<in>set xs. (\<not> d a, l a) \<le> (\<not> d x, l x)"
      using Cons.prems by auto
    with False have "\<forall>x\<in>set xs. \<not> d x"
      by (auto simp: less_eq_prod_def)
    then have "filter d xs = []" by (simp add: filter_empty_conv)
    with False IH show ?thesis by simp
  qed
qed

lemma sorted_partition:
  "sorted (map (\<lambda>x. (\<not> d x, l x)) xs) \<Longrightarrow> (\<And>x. x \<in> set xs \<Longrightarrow> P x \<Longrightarrow> d x = b) \<Longrightarrow>
     sorted (map l (filter P xs))"
proof (induction xs)
  case Nil
  then show ?case by simp
next
  case (Cons a xs)
  have tl: "sorted (map l (filter P xs))"
    using Cons by simp
  show ?case
  proof (cases "P a")
    case False
    then show ?thesis using tl by simp
  next
    case True
    have "\<forall>x\<in>set (filter P xs). l a \<le> l x"
    proof
      fix x assume x: "x \<in> set (filter P xs)"
      then have "(\<not> d a, l a) \<le> (\<not> d x, l x)" using Cons.prems(1) by auto
      moreover have "d a = d x" using Cons.prems(2)[of a] Cons.prems(2)[of x] True x by simp
      ultimately show "l a \<le> l x" by (auto simp: less_eq_prod_def)
    qed
    with True tl show ?thesis by simp
  qed
qed

lemma listing_order:
  fixes os cur items
  defines "names \<equiv> sort_key (item_key os cur) items"
  defines "D \<equiv> (\<lambda>x. isdir os (join os cur x))"
  shows "mset names = mset items"
    and "names = filter D names @ filter (\<lambda>x. \<not> D x) names"
    and "sorted (map (lower os) (filter D names))"
    and "sorted (map (lower os) (filter (\<lambda>x. \<not> D x) names))"
proof -
  have s: "sorted (map (\<lambda>x. (\<not> D x, lower os x)) names)"
    unfolding names_def D_def using sorted_sort_key[of "item_key os cur" items]
    by (simp add: item_key_def[abs_def])
  show "mset names = mset items" by (simp add: names_def)
  show "names = filter D names @ filter (\<lambda>x. \<not> D x) names"
    by (rule dirs_first_split[OF s])
  show "sorted (map (lower os) (filter D names))"
    by (rule sorted_partition[OF s, where b = True]) simp
  show "sorted (map (lower os) (filter (\<lambda>x. \<not> D x) names))"
    by (rule sorted_partition[OF s, where b = False]) simp
qed

lemma refresh_file_list_order:
  assumes "listdir os (current_path self) = Inr items"
  shows "case refresh_file_list os self of (self', raised) \<Rightarrow>
      (let names = map fst (tree self'); D = (\<lambda>x. isdir os (join os (current_path self) x))
       in raised = None \<and> set names = set items \<and> mset names = mset items \<and>
          names = filter D names @ filter (\<lambda>x. \<not> D x) names \<and>
          sorted (map (lower os) (filter D names)) \<and>
          sorted (map (lower os) (filter (\<lambda>x. \<not> D x) names)))"
proof -
  obtain self' where r: "refresh_file_list os self = (self', None)"
    and n: "map fst (tree self') = sort_key (item_key os (current_path self)) items"
    using refresh_file_list_names[OF assms] by blast
  have "set (sort_key (item_key os (current_path self)) items) = set items" by simp
  with listing_order[of os "current_path self" items] show ?thesis
    unfolding r n Let_def prod.case by blast
qed

subsection \<open>The thumbnail calls never raise\<close>

lemma make_thumbnail_returns: "\<exists>pix opened. make_thumbnail im self p = (Inr pix, opened)"
  by (simp add: make_thumbnail_def split: prod.splits sum.splits)

lemma get_returns: "\<exists>pix self' opened. get im self p = (Inr pix, self', opened)"
proof (cases "cache self (p, thumb_size self)")
  case None
  obtain pix opened where "make_thumbnail im self p = (Inr pix, opened)"
    using make_thumbnail_returns by blast
  with None show ?thesis by (simp add: get_def)
next
  case (Some pix)
  then show ?thesis by (simp add: get_def)
qed

subsection \<open>The sort and the loop of \<^verbatim>\<open>populate_list\<close>\<close>

lemma entry_keys_Inr:
  "entry_keys os ps = Inr ks \<Longrightarrow>
     ks = map (entry_key os) ps \<and> (\<forall>p\<in>set ps. \<exists>d. Path_is_dir os p = Inr d)"
  by (induction ps arbitrary: ks)
     (auto simp: entry_key_def is_dir_of_def split: sum.splits)

lemma entry_keys_Inl:
  "entry_keys os ps = Inl e \<Longrightarrow> \<exists>p\<in>set ps. Path_is_dir os p = Inl e"
  by (induction ps) (auto split: sum.splits)

text \<open>Sorting the entries decorated with their keys is sorting by the key.\<close>

lemma map_snd_insort_decorated:
  "\<forall>(a, b)\<in>set ys. a = k b \<Longrightarrow>
     map snd (insort_key fst (k x, x) ys) = insort_key k x (map snd ys)"
  by (induction ys) auto

lemma set_sort_key_decorated:
  "\<forall>(a, b)\<in>set (sort_key fst (zip (map k xs) xs)). a = k b"
proof -
  have "set (sort_key fst (zip (map k xs) xs)) = set (zip (map k xs) xs)" by simp
  moreover have "\<forall>(a, b)\<in>set (zip (map k xs) xs). a = k b"
    by (induction xs) auto
  ultimately show ?thesis by simp
qed

lemma decorated_sort: "map snd (sort_key fst (zip (map k xs) xs)) = sort_key k xs"
proof (induction xs)
  case Nil
  then show ?case by simp
next
  case (Cons x xs)
  have "map snd (sort_key fst (zip (map k (x # xs)) (x # xs)))
          = map snd (insort_key fst (k x, x) (sort_key fst (zip (map k xs) xs)))"
    by simp
  also have "\<dots> = insort_key k x (map snd (sort_key fst (zip (map k xs) xs)))"
    by (rule map_snd_insort_decorated[OF set_sort_key_decorated])
  also have "\<dots> = sort_key k (x # xs)"
    using Cons.IH by simp
  finally show ?case .
qed

lemma sorted_entries_ok:
  assumes "Path_iterdir os p = Inr ps" and "entry_keys os ps = Inr ks"
  shows "sorted_entries os p = Inr (sort_key (entry_key os) ps)"
  using assms entry_keys_Inr[OF assms(2)] by (simp add: sorted_entries_def decorated_sort)

lemma add_entries_ok:
  "\<forall>p\<in>set ps. \<exists>d. Path_is_dir os p = Inr d \<Longrightarrow>
     \<exists>self'. add_entries os im ps self = (self', None) \<and> warnings self' = warnings self \<and>
        map text_data (list_model self') =
          map text_data (list_model self) @ map (\<lambda>p. (Path_name os p, p)) ps"
proof (induction ps arbitrary: self)
  case Nil
  then show ?case by simp
next
  case (Cons p ps)
  then obtain d where d: "Path_is_dir os p = Inr d" by auto
  have rest: "\<forall>p\<in>set ps. \<exists>d. Path_is_dir os p = Inr d" using Cons.prems by simp
  obtain pix tc opened where g: "get im (thumb_cache self) p = (Inr pix, tc, opened)"
    using get_returns by blast
  show ?case
  proof (cases d)
    case True
    with d Cons.IH[OF rest, of "self\<lparr>list_model := list_model self @ [(Path_name os p, ThemeIcon ''folder'', p)]\<rparr>"]
    show ?thesis by (auto simp: text_data_def)
  next
    case False
    show ?thesis
    proof (cases "lower os (Path_suffix os p) \<in> set image_suffixes")
      case True
      with d False g
        Cons.IH[OF rest, of "self\<lparr>thumb_cache := tc,
                             list_model := list_model self @ [(Path_name os p, icon_of pix, p)]\<rparr>"]
      show ?thesis by (auto simp: text_data_def)
    next
      case no_image: False
      with d False
        Cons.IH[OF rest, of "self\<lparr>list_model := list_model self @ [(Path_name os p, icon_of NullPixmap, p)]\<rparr>"]
      show ?thesis by (auto simp: text_data_def)
    qed
  qed
qed

lemma populate_list_ok:
  assumes "Path_iterdir os p = Inr ps" and "entry_keys os ps = Inr ks"
  shows "\<exists>self'. populate_list os im self p = (self', None) \<and> warnings self' = warnings self \<and>
           map text_data (list_model self') =
             map (\<lambda>q. (Path_name os q, q)) (sort_key (entry_key os) ps)"
proof -
  have "\<forall>q\<in>set (sort_key (entry_key os) ps). \<exists>d. Path_is_dir os q = Inr d"
    using entry_keys_Inr[OF assms(2)] by simp
  from add_entries_ok[OF this, of im "self\<lparr>list_model := []\<rparr>"]
  show ?thesis
    by (simp add: populate_list_def sorted_entries_ok[OF assms])
qed

lemma populate_list_entries:
  assumes "Path_iterdir os p = Inr ps" and "entry_keys os ps = Inr ks"
  shows "\<exists>self'. populate_list os im self p = (self', None) \<and>
           map (\<lambda>it. snd (snd it)) (list_model self') = sort_key (entry_key os) ps \<and>
           map fst (list_model self') = map (Path_name os) (sort_key (entry_key os) ps)"
proof -
  obtain self' where r: "populate_list os im self p = (self', None)"
    and m: "map text_data (list_model self') =
             map (\<lambda>q. (Path_name os q, q)) (sort_key (entry_key os) ps)"
    using populate_list_ok[OF assms] by blast
  have e: "map (\<lambda>it. snd (snd it)) (list_model self') = sort_key (entry_key os) ps"
  proof -
    have "map (\<lambda>it. snd (snd it)) (list_model self') = map snd (map text_data (list_model self'))"
      by (simp add: text_data_def)
    then show ?thesis by (simp add: m comp_def)
  qed
  have n: "map fst (list_model self') = map (Path_name os) (sort_key (entry_key os) ps)"
  proof -
    have "map fst (list_model self') = map fst (map text_data (list_model self'))"
      by (simp add: text_data_def)
    then show ?thesis by (simp add: m comp_def)
  qed
  from r e n show ?thesis by blast
qed

lemma entry_order:
  fixes os ps
  defines "qs \<equiv> sort_key (entry_key os) ps"
  defines "D \<equiv> is_dir_of os"
  shows "mset qs = mset ps"
    and "qs = filter D qs @ filter (\<lambda>x. \<not> D x) qs"
    and "sorted (map (\<lambda>q. lower os (Path_name os q)) (filter D qs))"
    and "sorted (map (\<lambda>q. lower os (Path_name os q)) (filter (\<lambda>x. \<not> D x) qs))"
proof -
  have s: "sorted (map (\<lambda>x. (\<not> D x, lower os (Path_name os x))) qs)"
    unfolding qs_def D_def using sorted_sort_key[of "entry_key os" ps]
    by (simp add: entry_key_def[abs_def])
  show "mset qs = mset ps" by (simp add: qs_def)
  show "qs = filter D qs @ filter (\<lambda>x. \<not> D x) qs"
    by (rule dirs_first_split[OF s])
  show "sorted (map (\<lambda>q. lower os (Path_name os q)) (filter D qs))"
    by (rule sorted_partition[OF s, where b = True]) simp
  show "sorted (map (\<lambda>q. lower os (Path_name os q)) (filter (\<lambda>x. \<not> D x) qs))"
    by (rule sorted_partition[OF s, where b = False]) simp
qed

lemma populate_list_order:
  assumes "Path_iterdir os p = Inr ps" and "entry_keys os ps = Inr ks"
  shows "case populate_list os im self p of (self', raised) \<Rightarrow>
      (let entries = map (\<lambda>it. snd (snd it)) (list_model self'); D = is_dir_of os;
           name = (\<lambda>q. lower os (Path_name os q))
       in raised = None \<and> map fst (list_model self') = map (Path_name os) entries \<and>
          set entries = set ps \<and> mset entries = mset ps \<and>
          entries = filter D entries @ filter (\<lambda>x. \<not> D x) entries \<and>
          sorted (map name (filter D entries)) \<and>
          sorted (map name (filter (\<lambda>x. \<not> D x) entries)))"
proof -
  obtain self' where r: "populate_list os im self p = (self', None)"
    and e: "map (\<lambda>it. snd (snd it)) (list_model self') = sort_key (entry_key os) ps"
    and n: "map fst (list_model self') = map (Path_name os) (sort_key (entry_key os) ps)"
    using populate_list_entries[OF assms] by blast
  have "set (sort_key (entry_key os) ps) = set ps" by simp
  with entry_order[of os ps] show ?thesis
    unfolding r e n Let_def prod.case by blast
qed

subsection \<open>Names and order of a listing\<close>

text \<open>
  Claim C1, as amended. When \<^verbatim>\<open>os.listdir\<close> can enumerate the directory, the rows
  that \<^verbatim>\<open>refresh_file_list\<close> puts into the tree carry exactly the names that were
  enumerated (as a set and as a multiset: children only, each once), no exception leaves
  the method, the rows of the children for which \<^verbatim>\<open>os.path.isdir\<close> answers true come
  before the rows of all other children, and each of the two parts is sorted by the
  lower-cased name. \<^verbatim>\<open>populate_list\<close> does the same with the children that
  \<^verbatim>\<open>Path.iterdir\<close> yields and with the answer of \<^verbatim>\<open>p.is_dir()\<close>, provided that
  \<^verbatim>\<open>p.is_dir()\<close> returns for every child; when it raises for a child, the sort raises,
  and \<^verbatim>\<open>populate_list\<close> lists nothing and shows the warning. For the directory with
  \<^verbatim>\<open>B.txt\<close> (10 bytes), \<^verbatim>\<open>a_folder\<close> and \<^verbatim>\<open>A.txt\<close> (5 bytes) both methods list
  \<^verbatim>\<open>a_folder\<close>, \<^verbatim>\<open>A.txt\<close>, \<^verbatim>\<open>B.txt\<close>.
\<close>

theorem listing_names_and_order:
  "(listdir os (current_path self) = Inr items \<longrightarrow>
      (case refresh_file_list os self of (self', raised) \<Rightarrow>
        (let names = map fst (tree self'); D = (\<lambda>x. isdir os (join os (current_path self) x))
         in raised = None \<and> set names = set items \<and> mset names = mset items \<and>
            names = filter D names @ filter (\<lambda>x. \<not> D x) names \<and>
            sorted (map (lower os) (filter D names)) \<and>
            sorted (map (lower os) (filter (\<lambda>x. \<not> D x) names)))))
   \<and> (Path_iterdir os p = Inr ps \<and> entry_keys os ps = Inr ks \<longrightarrow>
      (case populate_list os im mfm p of (mfm', raised) \<Rightarrow>
        (let entries = map (\<lambda>it. snd (snd it)) (list_model mfm'); D = is_dir_of os;
             name = (\<lambda>q. lower os (Path_name os q))
         in raised = None \<and> map fst (list_model mfm') = map (Path_name os) entries \<and>
            set entries = set ps \<and> mset entries = mset ps \<and>
            entries = filter D entries @ filter (\<lambda>x. \<not> D x) entries \<and>
            sorted (map name (filter D entries)) \<and>
            sorted (map name (filter (\<lambda>x. \<not> D x) entries)))))
   \<and> (Path_iterdir os p = Inr ps \<and> entry_keys os ps = Inl e \<longrightarrow>
      populate_list os im mfm p =
        (mfm\<lparr>list_model := [],
             warnings := warnings mfm @ [warning ''Error'' ''Could not list directory: '' e]\<rparr>, None))
   \<and> map fst (tree (fst (refresh_file_list demo (fm0 ''/demo''))))
       = [''a_folder'', ''A.txt'', ''B.txt'']
   \<and> map fst (list_model (fst (populate_list demo no_images mfm0 ''/demo'')))
       = [''a_folder'', ''A.txt'', ''B.txt'']"
proof (intro conjI impI)
  assume "listdir os (current_path self) = Inr items"
  then show "case refresh_file_list os self of (self', raised) \<Rightarrow>
        (let names = map fst (tree self'); D = (\<lambda>x. isdir os (join os (current_path self) x))
         in raised = None \<and> set names = set items \<and> mset names = mset items \<and>
            names = filter D names @ filter (\<lambda>x. \<not> D x) names \<and>
            sorted (map (lower os) (filter D names)) \<and>
            sorted (map (lower os) (filter (\<lambda>x. \<not> D x) names)))"
    by (rule refresh_file_list_order)
next
  assume h: "Path_iterdir os p = Inr ps \<and> entry_keys os ps = Inr ks"
  show "case populate_list os im mfm p of (mfm', raised) \<Rightarrow>
        (let entries = map (\<lambda>it. snd (snd it)) (list_model mfm'); D = is_dir_of os;
             name = (\<lambda>q. lower os (Path_name os q))
         in raised = None \<and> map fst (list_model mfm') = map (Path_name os) entries \<and>
            set entries = set ps \<and> mset entries = mset ps \<and>
            entries = filter D entries @ filter (\<lambda>x. \<not> D x) entries \<and>
            sorted (map name (filter D entries)) \<and>
            sorted (map name (filter (\<lambda>x. \<not> D x) entries)))"
    by (rule populate_list_order[OF conjunct1[OF h] conjunct2[OF h]])
next
  assume "Path_iterdir os p = Inr ps \<and> entry_keys os ps = Inl e"
  then show "populate_list os im mfm p =
        (mfm\<lparr>list_model := [],
             warnings := warnings mfm @ [warning ''Error'' ''Could not list directory: '' e]\<rparr>, None)"
    by (simp add: populate_list_def sorted_entries_def)
next
  show "map fst (tree (fst (refresh_file_list demo (fm0 ''/demo''))))
          = [''a_folder'', ''A.txt'', ''B.txt'']"
    by code_simp
next
  show "map fst (list_model (fst (populate_list demo no_images mfm0 ''/demo'')))
          = [''a_folder'', ''A.txt'', ''B.txt'']"
    by code_simp
qed

theorem listing_names_and_order_witness:
  "listdir demo (current_path (fm0 ''/demo'')) = Inr [''B.txt'', ''a_folder'', ''A.txt'']
   \<and> snd (refresh_file_list demo (fm0 ''/demo'')) = None
   \<and> set (map fst (tree (fst (refresh_file_list demo (fm0 ''/demo'')))))
       = {''B.txt'', ''a_folder'', ''A.txt''}
   \<and> Path_iterdir demo ''/demo'' = Inr [''/demo/B.txt'', ''/demo/a_folder'', ''/demo/A.txt'']
   \<and> entry_keys demo [''/demo/B.txt'', ''/demo/a_folder'', ''/demo/A.txt'']
        = Inr [(True, ''b.txt''), (False, ''a_folder''), (True, ''a.txt'')]
   \<and> snd (populate_list demo no_images mfm0 ''/demo'') = None
   \<and> set (map (\<lambda>it. snd (snd it)) (list_model (fst (populate_list demo no_images mfm0 ''/demo''))))
        = {''/demo/B.txt'', ''/demo/a_folder'', ''/demo/A.txt''}
   \<and> Path_iterdir unsearchable ''/ro'' = Inr [''/ro/sub'', ''/ro/a.txt'']
   \<and> entry_keys unsearchable [''/ro/sub'', ''/ro/a.txt''] = Inl PermissionError
   \<and> populate_list unsearchable no_images mfm0 ''/ro'' =
        (mfm0\<lparr>warnings := [warning ''Error'' ''Could not list directory: '' PermissionError]\<rparr>, None)"
proof -
  have h1: "listdir demo (current_path (fm0 ''/demo'')) = Inr [''B.txt'', ''a_folder'', ''A.txt'']"
    by code_simp
  have h2: "Path_iterdir demo ''/demo'' = Inr [''/demo/B.txt'', ''/demo/a_folder'', ''/demo/A.txt'']"
    by code_simp
  have h3: "entry_keys demo [''/demo/B.txt'', ''/demo/a_folder'', ''/demo/A.txt'']
        = Inr [(True, ''b.txt''), (False, ''a_folder''), (True, ''a.txt'')]"
    by code_simp
  have h4: "Path_iterdir unsearchable ''/ro'' = Inr [''/ro/sub'', ''/ro/a.txt'']"
    by code_simp
  have h5: "entry_keys unsearchable [''/ro/sub'', ''/ro/a.txt''] = Inl PermissionError"
    by code_simp
  have a: "snd (refresh_file_list demo (fm0 ''/demo'')) = None
     \<and> set (map fst (tree (fst (refresh_file_list demo (fm0 ''/demo'')))))
         = {''B.txt'', ''a_folder'', ''A.txt''}
     \<and> snd (populate_list demo no_images mfm0 ''/demo'') = None
     \<and> set (map (\<lambda>it. snd (snd it)) (list_model (fst (populate_list demo no_images mfm0 ''/demo''))))
          = {''/demo/B.txt'', ''/demo/a_folder'', ''/demo/A.txt''}"
    using h1 h2 h3
      listing_names_and_order[where os = demo and self = "fm0 ''/demo''"
        and items = "[''B.txt'', ''a_folder'', ''A.txt'']" and p = "''/demo''"
        and ps = "[''/demo/B.txt'', ''/demo/a_folder'', ''/demo/A.txt'']"
        and ks = "[(True, ''b.txt''), (False, ''a_folder''), (True, ''a.txt'')]"
        and im = no_images and mfm = mfm0]
    by (auto simp: Let_def split: prod.splits)
  have b: "populate_list unsearchable no_images mfm0 ''/ro'' =
        (mfm0\<lparr>warnings := [warning ''Error'' ''Could not list directory: '' PermissionError]\<rparr>, None)"
    using h4 h5
      listing_names_and_order[where os = unsearchable and p = "''/ro''"
        and ps = "[''/ro/sub'', ''/ro/a.txt'']" and e = PermissionError
        and im = no_images and mfm = mfm0]
    by (simp add: mfm0_def)
  from h1 h2 h3 h4 h5 a b show ?thesis by simp
qed

text \<open>
  The claim as it is written speaks of every directory that can be read. The directory
  \<^verbatim>\<open>/ro\<close> can be read: both listings enumerate \<^verbatim>\<open>sub\<close> and \<^verbatim>\<open>a.txt\<close>. In
  \<^verbatim>\<open>populate_list\<close> the key of the sort raises on the first child, and the method
  shows the warning and lists no entry at all. In \<^verbatim>\<open>refresh_file_list\<close> the folder
  \<^verbatim>\<open>sub\<close>, for which \<^verbatim>\<open>os.path.isdir\<close> answers false, is listed as a file, after
  \<^verbatim>\<open>a.txt\<close>.
\<close>

theorem listing_counterexample:
  "listdir unsearchable ''/ro'' = Inr [''sub'', ''a.txt'']
   \<and> Path_iterdir unsearchable ''/ro'' = Inr [''/ro/sub'', ''/ro/a.txt'']
   \<and> Path_is_dir unsearchable ''/ro/sub'' = Inl PermissionError
   \<and> snd (populate_list unsearchable no_images mfm0 ''/ro'') = None
   \<and> list_model (fst (populate_list unsearchable no_images mfm0 ''/ro'')) = []
   \<and> warnings (fst (populate_list unsearchable no_images mfm0 ''/ro'')) =
       [warning ''Error'' ''Could not list directory: '' PermissionError]
   \<and> tree (fst (refresh_file_list unsearchable (fm0 ''/ro''))) =
       [(''a.txt'', NA, ''File''), (''sub'', NA, ''File'')]"
  by code_simp

section \<open>Errors of a listing\<close>

lemma refresh_file_list_error:
  assumes "listdir os (current_path self) = Inl e"
  shows "refresh_file_list os self =
     (if e = PermissionError
      then (self\<lparr>tree := [], path_label := current_path self,
                  dialogs := dialogs self @ [showerror ''Error'' ''Permission Denied'']\<rparr>, None)
      else (self\<lparr>tree := [], path_label := current_path self\<rparr>, Some e))"
  using assms by (cases e) (simp_all add: refresh_file_list_def)

lemma populate_list_error:
  assumes "sorted_entries os p = Inl e"
  shows "populate_list os im mfm p =
     (mfm\<lparr>list_model := [],
          warnings := warnings mfm @ [warning ''Error'' ''Could not list directory: '' e]\<rparr>, None)"
  using assms by (simp add: populate_list_def)

lemma sorted_entries_error:
  "Path_iterdir os p = Inl e \<Longrightarrow> sorted_entries os p = Inl e"
  by (simp add: sorted_entries_def)

text \<open>
  Claim C2, as amended. When the directory cannot be enumerated, the whole listing is
  abandoned and the view is left empty: there is never a partial sequence. How the error
  reaches the outside differs between the two methods and between the errors.
  \<^verbatim>\<open>FileManager.refresh_file_list\<close> catches \<^verbatim>\<open>PermissionError\<close> alone: it shows the
  error dialog \<^verbatim>\<open>Permission Denied\<close> and returns normally; any other error of
  \<^verbatim>\<open>os.listdir\<close> (a missing path, a path that is not a directory) leaves the method as
  the exception that the platform raised. \<^verbatim>\<open>ModernFileManager.populate_list\<close> catches
  every error of the enumeration: it shows a warning that carries the error and returns
  normally.
\<close>

theorem listing_failure_reported:
  "(listdir os (current_path self) = Inl e \<longrightarrow>
      refresh_file_list os self =
        (if e = PermissionError
         then (self\<lparr>tree := [], path_label := current_path self,
                     dialogs := dialogs self @ [showerror ''Error'' ''Permission Denied'']\<rparr>, None)
         else (self\<lparr>tree := [], path_label := current_path self\<rparr>, Some e)))
   \<and> (Path_iterdir os p = Inl e' \<longrightarrow>
      populate_list os im mfm p =
        (mfm\<lparr>list_model := [],
             warnings := warnings mfm @ [warning ''Error'' ''Could not list directory: '' e']\<rparr>, None))"
  using refresh_file_list_error[of os self e] populate_list_error[of os p e' im mfm]
    sorted_entries_error[of os p e']
  by blast

theorem listing_failure_reported_witness:
  "listdir locked (current_path (fm0 ''/missing'')) = Inl FileNotFoundError
   \<and> refresh_file_list locked (fm0 ''/missing'') = (fm0 ''/missing'', Some FileNotFoundError)
   \<and> listdir locked (current_path (fm0 ''/notes.txt'')) = Inl NotADirectoryError
   \<and> refresh_file_list locked (fm0 ''/notes.txt'') = (fm0 ''/notes.txt'', Some NotADirectoryError)
   \<and> Path_iterdir locked ''/locked'' = Inl PermissionError
   \<and> populate_list locked no_images mfm0 ''/locked'' =
       (mfm0\<lparr>warnings := [warning ''Error'' ''Could not list directory: '' PermissionError]\<rparr>, None)"
proof -
  have h1: "listdir locked (current_path (fm0 ''/missing'')) = Inl FileNotFoundError"
    by code_simp
  have h2: "listdir locked (current_path (fm0 ''/notes.txt'')) = Inl NotADirectoryError"
    by code_simp
  have h3: "Path_iterdir locked ''/locked'' = Inl PermissionError"
    by code_simp
  show ?thesis
    using h1 h2 h3
      listing_failure_reported[of locked "fm0 ''/missing''" FileNotFoundError "''/locked''"
        PermissionError no_images mfm0]
      listing_failure_reported[of locked "fm0 ''/notes.txt''" NotADirectoryError "''/locked''"
        PermissionError no_images mfm0]
    by (simp add: fm0_def mfm0_def)
qed

text \<open>
  The claim as it is written says that the listing fails with an access error on an
  unreadable directory and with a not-found error on a missing path. On the unreadable
  directory \<^verbatim>\<open>/locked\<close> no exception leaves \<^verbatim>\<open>refresh_file_list\<close>: the method returns
  after the dialog. On the missing path \<^verbatim>\<open>/missing\<close> no exception leaves
  \<^verbatim>\<open>populate_list\<close>: the method returns after the warning.
\<close>

theorem listing_failure_counterexample:
  "listdir locked ''/locked'' = Inl PermissionError
   \<and> refresh_file_list locked (fm0 ''/locked'') =
       (\<lparr>current_path = ''/locked'', path_label = ''/locked'', tree = [],
         dialogs = [showerror ''Error'' ''Permission Denied'']\<rparr>, None)
   \<and> Path_iterdir locked ''/missing'' = Inl FileNotFoundError
   \<and> snd (populate_list locked no_images mfm0 ''/missing'') = None
   \<and> warnings (fst (populate_list locked no_images mfm0 ''/missing'')) =
       [warning ''Error'' ''Could not list directory: '' FileNotFoundError]"
  by code_simp

section \<open>A file whose size cannot be read\<close>

lemma refresh_file_list_rows:
  assumes "listdir os (current_path self) = Inr items"
  shows "\<exists>self'. refresh_file_list os self = (self', None) \<and>
           set (tree self') = make_row os (current_path self) ` set items \<and>
           mset (map fst (tree self')) = mset items"
proof -
  have "mset (map fst (map (make_row os (current_path self))
          (sort_key (item_key os (current_path self)) items))) = mset items"
    unfolding map_fst_make_row by simp
  then show ?thesis
    by (simp add: refresh_file_list_ok[OF assms] del: map_map)
qed

lemma make_row_unreadable:
  assumes "\<not> isdir os (join os cur x)" and "getsize os (join os cur x) = Inl e"
  shows "make_row os cur x = (x, NA, ''File'')"
  using assms by (simp add: make_row_def)

text \<open>
  Claim C3. Let the directory be readable and let \<open>x\<close> be a child that is not a directory
  and whose size cannot be read (\<^verbatim>\<open>os.path.getsize\<close> raises an \<^verbatim>\<open>OSError\<close>, as for a
  broken symbolic link). Then \<^verbatim>\<open>refresh_file_list\<close> returns without an exception, the
  rows are the rows of all the children (each child once), and every row of \<open>x\<close> is
  \<^verbatim>\<open>(x, "N/A", "File")\<close>: the size is marked as not available, it is neither a number
  nor an error.
\<close>

theorem unreadable_size_is_absorbed:
  "listdir os (current_path self) = Inr items \<and> x \<in> set items \<and>
   \<not> isdir os (join os (current_path self) x) \<and>
   getsize os (join os (current_path self) x) = Inl e \<longrightarrow>
     (case refresh_file_list os self of (self', raised) \<Rightarrow>
        raised = None \<and>
        mset (map fst (tree self')) = mset items \<and>
        set (tree self') = make_row os (current_path self) ` set items \<and>
        (x, NA, ''File'') \<in> set (tree self') \<and>
        (\<forall>r\<in>set (tree self'). fst r = x \<longrightarrow> r = (x, NA, ''File'')))"
proof (intro impI, elim conjE)
  assume l: "listdir os (current_path self) = Inr items" and x: "x \<in> set items"
    and d: "\<not> isdir os (join os (current_path self) x)"
    and g: "getsize os (join os (current_path self) x) = Inl e"
  obtain self' where r: "refresh_file_list os self = (self', None)"
    and t: "set (tree self') = make_row os (current_path self) ` set items"
    and m: "mset (map fst (tree self')) = mset items"
    using refresh_file_list_rows[OF l] by blast
  have row: "make_row os (current_path self) x = (x, NA, ''File'')"
    by (rule make_row_unreadable[OF d g])
  have "(x, NA, ''File'') \<in> set (tree self')"
    using x row t by force
  moreover have "\<forall>r\<in>set (tree self'). fst r = x \<longrightarrow> r = (x, NA, ''File'')"
    using t row by (auto simp: fst_make_row)
  ultimately show "case refresh_file_list os self of (self', raised) \<Rightarrow>
        raised = None \<and>
        mset (map fst (tree self')) = mset items \<and>
        set (tree self') = make_row os (current_path self) ` set items \<and>
        (x, NA, ''File'') \<in> set (tree self') \<and>
        (\<forall>r\<in>set (tree self'). fst r = x \<longrightarrow> r = (x, NA, ''File''))"
    using r t m by simp
qed

theorem unreadable_size_is_absorbed_witness:
  "listdir dangling (current_path (fm0 ''/links'')) = Inr [''ok.txt'', ''dangling'']
   \<and> ''dangling'' \<in> set [''ok.txt'', ''dangling'']
   \<and> \<not> isdir dangling (join dangling (current_path (fm0 ''/links'')) ''dangling'')
   \<and> getsize dangling (join dangling (current_path (fm0 ''/links'')) ''dangling'')
       = Inl FileNotFoundError
   \<and> snd (refresh_file_list dangling (fm0 ''/links'')) = None
   \<and> (''dangling'', NA, ''File'') \<in> set (tree (fst (refresh_file_list dangling (fm0 ''/links''))))
   \<and> tree (fst (refresh_file_list dangling (fm0 ''/links''))) =
        [(''dangling'', NA, ''File''), (''ok.txt'', KB 2048, ''File'')]"
proof -
  have h: "listdir dangling (current_path (fm0 ''/links'')) = Inr [''ok.txt'', ''dangling'']
     \<and> ''dangling'' \<in> set [''ok.txt'', ''dangling'']
     \<and> \<not> isdir dangling (join dangling (current_path (fm0 ''/links'')) ''dangling'')
     \<and> getsize dangling (join dangling (current_path (fm0 ''/links'')) ''dangling'')
         = Inl FileNotFoundError"
    by code_simp
  have t: "tree (fst (refresh_file_list dangling (fm0 ''/links''))) =
        [(''dangling'', NA, ''File''), (''ok.txt'', KB 2048, ''File'')]"
    by code_simp
  show ?thesis
    using h t unreadable_size_is_absorbed[of dangling "fm0 ''/links''" "[''ok.txt'', ''dangling'']"
        "''dangling''" FileNotFoundError]
    by (auto split: prod.splits)
qed

section \<open>Going up\<close>

lemma refresh_file_list_current_path:
  "current_path (fst (refresh_file_list os self)) = current_path self"
  by (simp add: refresh_file_list_def insert_items_eq Let_def split: sum.splits os_error.splits)

text \<open>
  Claim C10. When the parent of the current path is the current path itself,
  \<^verbatim>\<open>FileManager.go_up\<close> and \<^verbatim>\<open>ModernFileExplorer.go_up\<close> leave the whole object as it
  is, on every platform: the path is unchanged, nothing is listed again (the tree, the
  dialogs and the status are what they were, whatever a listing would have produced)
  and no exception is raised. Otherwise the current path after the call is the parent,
  also when the listing that follows fails.
\<close>

theorem go_up_at_root_is_noop:
  "(dirname os (current_path self) = current_path self \<longrightarrow> go_up os self = (self, None))
   \<and> (dirname os (current_path self) \<noteq> current_path self \<longrightarrow>
        current_path (fst (go_up os self)) = dirname os (current_path self))
   \<and> (Path_parent os (explorer_path ex) = explorer_path ex \<longrightarrow> explorer_go_up os ex = ex)
   \<and> (Path_parent os (explorer_path ex) \<noteq> explorer_path ex \<longrightarrow>
        explorer_path (explorer_go_up os ex) = Path_parent os (explorer_path ex))"
proof (intro conjI impI)
  assume "dirname os (current_path self) = current_path self"
  then show "go_up os self = (self, None)" by (simp add: go_up_def)
next
  assume n: "dirname os (current_path self) \<noteq> current_path self"
  then have g: "go_up os self =
      refresh_file_list os (self\<lparr>current_path := dirname os (current_path self)\<rparr>)"
    by (simp add: go_up_def)
  show "current_path (fst (go_up os self)) = dirname os (current_path self)"
    unfolding g by (simp add: refresh_file_list_current_path)
next
  assume "Path_parent os (explorer_path ex) = explorer_path ex"
  then show "explorer_go_up os ex = ex" by (simp add: explorer_go_up_def)
next
  assume "Path_parent os (explorer_path ex) \<noteq> explorer_path ex"
  then show "explorer_path (explorer_go_up os ex) = Path_parent os (explorer_path ex)"
    by (simp add: explorer_go_up_def update_status_def Let_def split: sum.splits)
qed

theorem go_up_at_root_is_noop_witness:
  "dirname demo (current_path (fm0 ''/'')) = current_path (fm0 ''/'')
   \<and> go_up demo (fm0 ''/'') = (fm0 ''/'', None)
   \<and> dirname demo (current_path (fm0 ''/demo/a_folder'')) \<noteq> current_path (fm0 ''/demo/a_folder'')
   \<and> current_path (fst (go_up demo (fm0 ''/demo/a_folder''))) = ''/demo''
   \<and> Path_parent demo (explorer_path (explorer0 ''/'')) = explorer_path (explorer0 ''/'')
   \<and> explorer_go_up demo (explorer0 ''/'') = explorer0 ''/''
   \<and> Path_parent demo (explorer_path (explorer0 ''/demo/a_folder''))
       \<noteq> explorer_path (explorer0 ''/demo/a_folder'')
   \<and> explorer_path (explorer_go_up demo (explorer0 ''/demo/a_folder'')) = ''/demo''"
proof -
  have h1: "dirname demo (current_path (fm0 ''/'')) = current_path (fm0 ''/'')"
    by code_simp
  have h2: "dirname demo (current_path (fm0 ''/demo/a_folder'')) = ''/demo''"
    by code_simp
  have h2': "current_path (fm0 ''/demo/a_folder'') \<noteq> ''/demo''"
    by code_simp
  have h3: "Path_parent demo (explorer_path (explorer0 ''/'')) = explorer_path (explorer0 ''/'')"
    by code_simp
  have h4: "Path_parent demo (explorer_path (explorer0 ''/demo/a_folder'')) = ''/demo''"
    by code_simp
  have h4': "explorer_path (explorer0 ''/demo/a_folder'') \<noteq> ''/demo''"
    by code_simp
  show ?thesis
    using h1 h2 h2' h3 h4 h4'
      go_up_at_root_is_noop[of demo "fm0 ''/''" "explorer0 ''/''"]
      go_up_at_root_is_noop[of demo "fm0 ''/demo/a_folder''" "explorer0 ''/demo/a_folder''"]
    by simp
qed

section \<open>Listing one snapshot twice\<close>

text \<open>Replacing the enumeration of the platform leaves the keys, the rows and the loop of
  the listing as they are.\<close>

lemma item_key_listdir_update [simp]: "item_key (os\<lparr>listdir := ls\<rparr>) = item_key os"
  by (simp add: item_key_def fun_eq_iff)

lemma make_row_listdir_update [simp]: "make_row (os\<lparr>listdir := ls\<rparr>) = make_row os"
  by (simp add: make_row_def fun_eq_iff Let_def cong: if_cong)

lemma entry_keys_iterdir_update [simp]: "entry_keys (os\<lparr>Path_iterdir := it\<rparr>) ps = entry_keys os ps"
  by (induction ps) (simp_all cong: sum.case_cong)

lemma add_entries_iterdir_update [simp]:
  "add_entries (os\<lparr>Path_iterdir := it\<rparr>) im ps self = add_entries os im ps self"
  by (induction ps arbitrary: self) (simp_all cong: sum.case_cong bool.case_cong if_cong)









section \<open>The thumbnail cache\<close>

subsection \<open>What a call of \<^verbatim>\<open>get\<close> returns and stores\<close>

lemma make_thumbnail_no_pillow:
  "\<not> Image im \<Longrightarrow>
     make_thumbnail im self p = (Inr (fromTheme_pixmap im ''text-x-generic'' (thumb_size self)), [])"
  by (simp add: make_thumbnail_def)

lemma make_thumbnail_raised:
  "Image im \<Longrightarrow> fst (make_thumbnail_try im (thumb_size self) p) = Inl e \<Longrightarrow>
     fst (make_thumbnail im self p) = Inr (fromTheme_pixmap im ''text-x-generic'' (thumb_size self))"
  by (cases "make_thumbnail_try im (thumb_size self) p") (simp add: make_thumbnail_def)

lemma make_thumbnail_returned:
  "Image im \<Longrightarrow> fst (make_thumbnail_try im (thumb_size self) p) = Inr pix \<Longrightarrow>
     fst (make_thumbnail im self p) = Inr pix"
  by (cases "make_thumbnail_try im (thumb_size self) p") (simp add: make_thumbnail_def)

lemma make_thumbnail_try_returned:
  "fst (make_thumbnail_try im sz p) = Inr pix \<Longrightarrow>
     pix = (if isNull (QPixmap im p) then fromTheme_pixmap im ''image-x-generic'' sz
            else scaled (QPixmap im p) sz)"
  by (auto simp: make_thumbnail_try_def QPixmap_fromImage_of_QPixmap_def split: sum.splits)

lemma get_hit:
  "cache self (p, thumb_size self) = Some pix \<Longrightarrow> get im self p = (Inr pix, self, [])"
  by (simp add: get_def)

lemma get_miss:
  assumes "cache self (p, thumb_size self) = None"
  shows "\<exists>pix opened. make_thumbnail im self p = (Inr pix, opened) \<and>
           get im self p = (Inr pix, self\<lparr>cache := (cache self)((p, thumb_size self) \<mapsto> pix)\<rparr>, opened)"
proof -
  obtain pix opened where m: "make_thumbnail im self p = (Inr pix, opened)"
    using make_thumbnail_returns by blast
  with assms show ?thesis by (simp add: get_def)
qed

lemma get_stores:
  "get im self p = (r, self', opened) \<Longrightarrow>
     (\<exists>pix. r = Inr pix \<and> cache self' (p, thumb_size self') = Some pix) \<and>
     thumb_size self' = thumb_size self \<and>
     (\<forall>k pix. cache self k = Some pix \<longrightarrow> cache self' k = Some pix) \<and>
     dom (cache self') = insert (p, thumb_size self) (dom (cache self))"
proof (cases "cache self (p, thumb_size self)")
  case None
  from get_miss[OF None, of im] show "get im self p = (r, self', opened) \<Longrightarrow> ?thesis"
    using None by auto
next
  case (Some pix)
  from get_hit[OF Some, of im] Some show "get im self p = (r, self', opened) \<Longrightarrow> ?thesis"
    by auto
qed

lemma gets_keeps:
  "\<exists>self'. gets calls self = Inr self' \<and> thumb_size self' = thumb_size self \<and>
     (\<forall>k pix. cache self k = Some pix \<longrightarrow> cache self' k = Some pix)"
proof (induction calls arbitrary: self)
  case Nil
  then show ?case by simp
next
  case (Cons c calls)
  obtain im p where c: "c = (im, p)" by (cases c)
  obtain pix self1 opened where g: "get im self p = (Inr pix, self1, opened)"
    using get_returns by blast
  from get_stores[OF g] have k: "thumb_size self1 = thumb_size self"
    "\<forall>k pix. cache self k = Some pix \<longrightarrow> cache self1 k = Some pix" by auto
  from Cons.IH[of self1] obtain self' where s: "gets calls self1 = Inr self'"
    "thumb_size self' = thumb_size self1"
    "\<forall>k pix. cache self1 k = Some pix \<longrightarrow> cache self' k = Some pix" by blast
  have "gets (c # calls) self = Inr self'" using c g s(1) by simp
  with k s show ?case by auto
qed



lemma miss_then_hits:
  assumes miss: "cache self (p, thumb_size self) = None"
    and m: "fst (make_thumbnail im self p) = Inr ph"
  shows "\<exists>self1 opened. get im self p = (Inr ph, self1, opened) \<and>
           cache self1 (p, thumb_size self1) = Some ph \<and>
           (\<forall>calls self2 im'. gets calls self1 = Inr self2 \<longrightarrow>
              get im' self2 p = (Inr ph, self2, []))"
proof -
  obtain pix opened where mk: "make_thumbnail im self p = (Inr pix, opened)"
    and g: "get im self p =
       (Inr pix, self\<lparr>cache := (cache self)((p, thumb_size self) \<mapsto> pix)\<rparr>, opened)"
    using get_miss[OF miss] by blast
  define self1 where "self1 = self\<lparr>cache := (cache self)((p, thumb_size self) \<mapsto> pix)\<rparr>"
  have pix: "pix = ph" using mk m by simp
  have c1: "cache self1 (p, thumb_size self1) = Some ph"
    by (simp add: self1_def pix)
  have later: "get im' self2 p = (Inr ph, self2, [])" if run: "gets calls self1 = Inr self2"
    for calls self2 im'
  proof -
    obtain self' where k: "gets calls self1 = Inr self'" "thumb_size self' = thumb_size self1"
      "\<forall>k v. cache self1 k = Some v \<longrightarrow> cache self' k = Some v"
      using gets_keeps[of calls self1] by blast
    from k(1) run have eq: "self' = self2" by simp
    from k(3) c1 have "cache self' (p, thumb_size self1) = Some ph" by blast
    then have "cache self2 (p, thumb_size self2) = Some ph"
      using k(2) unfolding eq by simp
    then show ?thesis by (rule get_hit)
  qed
  from g c1 later show ?thesis unfolding self1_def pix by blast
qed

text \<open>The \<^verbatim>\<open>try\<close> block never gets past line 83, so \<^verbatim>\<open>_make_thumbnail\<close> returns the
  generic text icon for every file, and with Pillow it opens the file once.\<close>

lemma make_thumbnail_try_raises: "\<exists>e. make_thumbnail_try im sz p = (Inl e, [p])"
  by (simp add: make_thumbnail_try_def QPixmap_fromImage_of_QPixmap_def split: sum.splits)

lemma make_thumbnail_placeholder:
  "make_thumbnail im self p =
     (Inr (fromTheme_pixmap im ''text-x-generic'' (thumb_size self)), if Image im then [p] else [])"
proof (cases "Image im")
  case True
  obtain e where "make_thumbnail_try im (thumb_size self) p = (Inl e, [p])"
    using make_thumbnail_try_raises by blast
  with True show ?thesis by (simp add: make_thumbnail_def)
next
  case False
  then show ?thesis by (simp add: make_thumbnail_def)
qed

lemma get_miss_placeholder:
  assumes "cache self (p, thumb_size self) = None"
  shows "get im self p =
     (Inr (fromTheme_pixmap im ''text-x-generic'' (thumb_size self)),
      self\<lparr>cache := (cache self)((p, thumb_size self) \<mapsto>
                         fromTheme_pixmap im ''text-x-generic'' (thumb_size self))\<rparr>,
      if Image im then [p] else [])"
  using assms by (simp add: get_def make_thumbnail_placeholder)

text \<open>A cache that holds nothing but one placeholder \<open>ph\<close> keeps doing so through calls
  made while the icon theme gives \<open>ph\<close>.\<close>

lemma get_only_placeholder:
  assumes th: "fromTheme_pixmap im ''text-x-generic'' (thumb_size self) = ph"
    and inv: "\<forall>k v. cache self k = Some v \<longrightarrow> v = ph"
    and g: "get im self p = (r, self', opened)"
  shows "r = Inr ph \<and> thumb_size self' = thumb_size self \<and>
         (\<forall>k v. cache self' k = Some v \<longrightarrow> v = ph)"
proof (cases "cache self (p, thumb_size self)")
  case None
  from get_miss_placeholder[OF None, of im] g th inv show ?thesis by auto
next
  case (Some pix)
  with inv have "pix = ph" by blast
  with get_hit[OF Some, of im] g inv show ?thesis by auto
qed

lemma gets_only_placeholder:
  assumes "\<forall>c\<in>set calls. fromTheme_pixmap (fst c) ''text-x-generic'' (thumb_size self) = ph"
    and "\<forall>k v. cache self k = Some v \<longrightarrow> v = ph"
    and "gets calls self = Inr self'"
  shows "thumb_size self' = thumb_size self \<and> (\<forall>k v. cache self' k = Some v \<longrightarrow> v = ph)"
  using assms
proof (induction calls arbitrary: self)
  case Nil
  then show ?case by simp
next
  case (Cons c calls)
  obtain im p where c: "c = (im, p)" by (cases c)
  obtain pix self1 opened where g: "get im self p = (Inr pix, self1, opened)"
    using get_returns by blast
  have th: "fromTheme_pixmap im ''text-x-generic'' (thumb_size self) = ph"
    using Cons.prems(1) c by simp
  from get_only_placeholder[OF th Cons.prems(2) g]
  have s1: "thumb_size self1 = thumb_size self" "\<forall>k v. cache self1 k = Some v \<longrightarrow> v = ph"
    by simp_all
  have rest: "\<forall>c\<in>set calls. fromTheme_pixmap (fst c) ''text-x-generic'' (thumb_size self1) = ph"
    using Cons.prems(1) s1(1) by simp
  have run: "gets calls self1 = Inr self'"
    using Cons.prems(3) c g by simp
  from Cons.IH[OF rest s1(2) run] s1(1) show ?case by simp
qed

subsection \<open>The examples, evaluated\<close>

lemmas thumb_eval = get_def make_thumbnail_def make_thumbnail_try_def desktop_imaging_def
  QPixmap_fromImage_of_QPixmap_def tc0_def ThumbnailCache_init_def

lemma tc0_empty: "cache tc0 k = None" and tc0_size: "thumb_size tc0 = (128, 128)"
  by (simp_all add: tc0_def ThumbnailCache_init_def)

lemma photos_small:
  "get photos tc0 ''/pics/small.png'' =
     (Inr (Pixmap ''text-x-generic'' 128 128),
      tc0\<lparr>cache := (cache tc0)((''/pics/small.png'', 128, 128) \<mapsto> Pixmap ''text-x-generic'' 128 128)\<rparr>,
      [''/pics/small.png''])"
  by (simp add: thumb_eval photos_def)

lemma photos_large:
  "get photos tc0 ''/pics/large.jpg'' =
     (Inr (Pixmap ''text-x-generic'' 128 128),
      tc0\<lparr>cache := (cache tc0)((''/pics/large.jpg'', 128, 128) \<mapsto> Pixmap ''text-x-generic'' 128 128)\<rparr>,
      [''/pics/large.jpg''])"
  by (simp add: thumb_eval photos_def)

lemma photos_try_notes:
  "fst (make_thumbnail_try photos (128, 128) ''/pics/notes.txt'') = Inl Exception"
  by (simp add: thumb_eval photos_def)

lemma photos_facts:
  "Image photos" "isNull (QPixmap photos ''/pics/scan.pcx'')"
  "QPixmap photos ''/pics/small.png'' = Pixmap ''/pics/small.png'' 64 32"
  "fromTheme_pixmap photos name sz = Pixmap name (fst sz) (snd sz)"
  "Image_open photos ''/pics/small.png'' = Inr (64, 32)"
  "Image_open photos ''/pics/large.jpg'' = Inr (4000, 3000)"
  "QPixmap photos ''/pics/large.jpg'' = Pixmap ''/pics/large.jpg'' 4000 3000"
  "Image_open photos ''/pics/scan.pcx'' = Inr (100, 100)"
  "Image_open photos ''/pics/notes.txt'' = Inl Exception"
  by (simp_all add: photos_def desktop_imaging_def)

lemma no_pillow_facts:
  "\<not> Image no_pillow" "fromTheme_pixmap no_pillow name sz = Pixmap name (fst sz) (snd sz)"
  by (simp_all add: no_pillow_def desktop_imaging_def)

lemma corrupted_facts:
  "Image_open corrupted p = Inl (OSErr OSError)" "QPixmap corrupted p = NullPixmap"
  "fromTheme_pixmap corrupted name sz = Pixmap name (fst sz) (snd sz)"
  by (simp_all add: corrupted_def desktop_imaging_def)

lemma repaired_facts:
  "Image_open repaired p = Inr (10, 10)" "QPixmap repaired p = Pixmap p 10 10"
  by (simp_all add: repaired_def desktop_imaging_def)

subsection \<open>No exception leaves \<^verbatim>\<open>get\<close>\<close>

text \<open>
  Claim C4. No exception leaves \<^verbatim>\<open>get\<close>, for any path, any size, any state of the
  cache and any state of the libraries and of the files. On a cache miss the pixmap
  returned is the pixmap of the theme icon \<^verbatim>\<open>text-x-generic\<close> at the thumbnail size:
  when Pillow is not available, when \<^verbatim>\<open>Image.open\<close> raises (a file that is no image,
  is corrupt or has an unsupported format), and in every other case too. On a cache
  that the program has built, by any run of calls of \<^verbatim>\<open>get\<close> from the empty cache under
  one icon theme, every call returns that one placeholder, hit or miss.
\<close>

theorem get_never_raises:
  "(\<exists>pix self' opened. get im self p = (Inr pix, self', opened))
   \<and> (cache self (p, thumb_size self) = None \<longrightarrow>
        fst (get im self p) = Inr (fromTheme_pixmap im ''text-x-generic'' (thumb_size self)))
   \<and> (gets calls (ThumbnailCache_init sz) = Inr self \<and>
        (\<forall>c\<in>set calls. fromTheme_pixmap (fst c) ''text-x-generic'' sz = ph) \<and>
        fromTheme_pixmap im ''text-x-generic'' sz = ph \<longrightarrow>
        fst (get im self p) = Inr ph)"
proof (intro conjI impI)
  show "\<exists>pix self' opened. get im self p = (Inr pix, self', opened)"
    by (rule get_returns)
next
  assume "cache self (p, thumb_size self) = None"
  then show "fst (get im self p) = Inr (fromTheme_pixmap im ''text-x-generic'' (thumb_size self))"
    by (simp add: get_miss_placeholder)
next
  assume h: "gets calls (ThumbnailCache_init sz) = Inr self \<and>
        (\<forall>c\<in>set calls. fromTheme_pixmap (fst c) ''text-x-generic'' sz = ph) \<and>
        fromTheme_pixmap im ''text-x-generic'' sz = ph"
  have i0: "\<forall>k v. cache (ThumbnailCache_init sz) k = Some v \<longrightarrow> v = ph"
    by (simp add: ThumbnailCache_init_def)
  have t0: "thumb_size (ThumbnailCache_init sz) = sz"
    by (simp add: ThumbnailCache_init_def)
  from h have run: "gets calls (ThumbnailCache_init sz) = Inr self"
    and th: "\<forall>c\<in>set calls. fromTheme_pixmap (fst c) ''text-x-generic''
                 (thumb_size (ThumbnailCache_init sz)) = ph"
    and now: "fromTheme_pixmap im ''text-x-generic'' sz = ph"
    by (simp_all add: t0)
  from gets_only_placeholder[OF th i0 run] t0
  have s: "thumb_size self = sz" "\<forall>k v. cache self k = Some v \<longrightarrow> v = ph" by simp_all
  obtain r self' opened where g: "get im self p = (r, self', opened)"
    by (cases "get im self p")
  from now s(1) have "fromTheme_pixmap im ''text-x-generic'' (thumb_size self) = ph" by simp
  from get_only_placeholder[OF this s(2) g] g show "fst (get im self p) = Inr ph" by simp
qed

theorem get_never_raises_witness:
  "cache tc0 (''/pics/notes.txt'', thumb_size tc0) = None
   \<and> Image_open photos ''/pics/notes.txt'' = Inl Exception
   \<and> fst (get photos tc0 ''/pics/notes.txt'') = Inr (Pixmap ''text-x-generic'' 128 128)
   \<and> \<not> Image no_pillow
   \<and> fst (get no_pillow tc0 ''/pics/notes.txt'') = Inr (Pixmap ''text-x-generic'' 128 128)
   \<and> isNull (QPixmap photos ''/pics/scan.pcx'')
   \<and> fst (get photos tc0 ''/pics/scan.pcx'') = Inr (Pixmap ''text-x-generic'' 128 128)
   \<and> (\<exists>self. gets [(photos, ''/pics/small.png''), (no_pillow, ''/pics/notes.txt'')]
                 (ThumbnailCache_init (128, 128)) = Inr self
        \<and> (\<forall>c\<in>set [(photos, ''/pics/small.png''), (no_pillow, ''/pics/notes.txt'')].
              fromTheme_pixmap (fst c) ''text-x-generic'' (128, 128) = Pixmap ''text-x-generic'' 128 128)
        \<and> fromTheme_pixmap corrupted ''text-x-generic'' (128, 128) = Pixmap ''text-x-generic'' 128 128
        \<and> Image_open corrupted ''/pics/small.png'' = Inl (OSErr OSError)
        \<and> fst (get corrupted self ''/pics/small.png'') = Inr (Pixmap ''text-x-generic'' 128 128))"
proof -
  have a: "fst (get photos tc0 ''/pics/notes.txt'') = Inr (Pixmap ''text-x-generic'' 128 128)"
    using tc0_empty tc0_size photos_facts(4)
      get_never_raises[where im = photos and self = tc0 and p = "''/pics/notes.txt''"]
    by simp
  have b: "fst (get no_pillow tc0 ''/pics/notes.txt'') = Inr (Pixmap ''text-x-generic'' 128 128)"
    using tc0_empty tc0_size no_pillow_facts(2)
      get_never_raises[where im = no_pillow and self = tc0 and p = "''/pics/notes.txt''"]
    by simp
  have c: "fst (get photos tc0 ''/pics/scan.pcx'') = Inr (Pixmap ''text-x-generic'' 128 128)"
    using tc0_empty tc0_size photos_facts(4)
      get_never_raises[where im = photos and self = tc0 and p = "''/pics/scan.pcx''"]
    by simp
  obtain self where run: "gets [(photos, ''/pics/small.png''), (no_pillow, ''/pics/notes.txt'')]
                 (ThumbnailCache_init (128, 128)) = Inr self"
    using gets_keeps by blast
  have th: "\<forall>c\<in>set [(photos, ''/pics/small.png''), (no_pillow, ''/pics/notes.txt'')].
              fromTheme_pixmap (fst c) ''text-x-generic'' (128, 128) = Pixmap ''text-x-generic'' 128 128"
    by (simp add: photos_facts(4) no_pillow_facts(2))
  have now: "fromTheme_pixmap corrupted ''text-x-generic'' (128, 128) = Pixmap ''text-x-generic'' 128 128"
    by (simp add: corrupted_facts(3))
  have d: "fst (get corrupted self ''/pics/small.png'') = Inr (Pixmap ''text-x-generic'' 128 128)"
    using run th now
      get_never_raises[where im = corrupted and self = self and p = "''/pics/small.png''"
        and calls = "[(photos, ''/pics/small.png''), (no_pillow, ''/pics/notes.txt'')]"
        and sz = "(128, 128)" and ph = "Pixmap ''text-x-generic'' 128 128"]
    by blast
  from a b c d run th now tc0_empty photos_facts(2,9) no_pillow_facts(1) corrupted_facts(1)
  show ?thesis by blast
qed

subsection \<open>The second call\<close>

text \<open>
  Claim C5. Whatever the first call \<^verbatim>\<open>get(path)\<close> returns, it leaves that pixmap in the
  cache under the key \<^verbatim>\<open>(path, size)\<close>; on a miss with Pillow it has opened the file.
  A second call on the cache that the first one leaves behind is a hit: it returns the
  stored pixmap (so the same pixel dimensions), leaves the cache as it is and opens no
  file. This holds for every state of the libraries and of the files at the time of the
  second call, so the second call does not depend on the source file.
\<close>

theorem second_get_is_cache_hit:
  "\<exists>pix self' opened. get im self p = (Inr pix, self', opened) \<and>
     cache self' (p, thumb_size self') = Some pix \<and> thumb_size self' = thumb_size self \<and>
     (cache self (p, thumb_size self) = None \<and> Image im \<longrightarrow> opened = [p]) \<and>
     (\<forall>im'. get im' self' p = (Inr pix, self', [])) \<and>
     (\<forall>im' pix'. fst (get im' self' p) = Inr pix' \<longrightarrow> pixmap_size pix' = pixmap_size pix)"
proof -
  obtain pix self' opened where g: "get im self p = (Inr pix, self', opened)"
    using get_returns by blast
  from get_stores[OF g] have c: "cache self' (p, thumb_size self') = Some pix"
    and t: "thumb_size self' = thumb_size self" by blast+
  from c have hit: "\<forall>im'. get im' self' p = (Inr pix, self', [])"
    by (simp add: get_hit)
  have o: "opened = [p]" if "cache self (p, thumb_size self) = None" "Image im"
    using get_miss_placeholder[OF that(1), of im] g that(2) by simp
  from g c t hit o show ?thesis by simp
qed

theorem second_get_is_cache_hit_witness:
  "cache tc0 (''/pics/small.png'', thumb_size tc0) = None \<and> Image photos
   \<and> (\<exists>pix self'. get photos tc0 ''/pics/small.png'' = (Inr pix, self', [''/pics/small.png'']) \<and>
        cache self' (''/pics/small.png'', 128, 128) = Some pix \<and>
        get corrupted self' ''/pics/small.png'' = (Inr pix, self', []) \<and>
        pixmap_size pix = (128, 128))"
  using second_get_is_cache_hit[of photos tc0 "''/pics/small.png''"] photos_small
    tc0_empty tc0_size photos_facts(1)
  by auto

subsection \<open>Entries stay\<close>

text \<open>
  Claim C7. The cache is a dictionary, so a key \<^verbatim>\<open>(path, size)\<close> has at most one
  pixmap. A call of \<^verbatim>\<open>get\<close> keeps every entry with its pixmap, adds at most the entry
  of its own key and leaves the thumbnail size alone; so does every run of calls of
  \<^verbatim>\<open>get\<close>, under any changes of the files and of the libraries between the calls, and
  no such run raises. Nothing removes, replaces or invalidates an entry.
\<close>

theorem cache_entries_persist:
  "(case get im self p of (r, self', opened) \<Rightarrow>
      (\<forall>k pix. cache self k = Some pix \<longrightarrow> cache self' k = Some pix) \<and>
      dom (cache self') = insert (p, thumb_size self) (dom (cache self)) \<and>
      thumb_size self' = thumb_size self)
   \<and> (\<exists>self'. gets calls self = Inr self' \<and> thumb_size self' = thumb_size self \<and>
        (\<forall>k pix. cache self k = Some pix \<longrightarrow> cache self' k = Some pix))"
proof
  show "case get im self p of (r, self', opened) \<Rightarrow>
      (\<forall>k pix. cache self k = Some pix \<longrightarrow> cache self' k = Some pix) \<and>
      dom (cache self') = insert (p, thumb_size self) (dom (cache self)) \<and>
      thumb_size self' = thumb_size self"
    using get_stores[of im self p] by (cases "get im self p") simp
next
  show "\<exists>self'. gets calls self = Inr self' \<and> thumb_size self' = thumb_size self \<and>
        (\<forall>k pix. cache self k = Some pix \<longrightarrow> cache self' k = Some pix)"
    by (rule gets_keeps)
qed

theorem cache_entries_persist_witness:
  "cache (fst (snd (get photos tc0 ''/pics/small.png''))) (''/pics/small.png'', 128, 128)
     = Some (Pixmap ''text-x-generic'' 128 128)
   \<and> cache (fst (snd (get corrupted (fst (snd (get photos tc0 ''/pics/small.png'')))
                       ''/pics/large.jpg''))) (''/pics/small.png'', 128, 128)
     = Some (Pixmap ''text-x-generic'' 128 128)
   \<and> (\<exists>self'. gets [(corrupted, ''/pics/large.jpg''), (repaired, ''/pics/small.png'')]
                 (fst (snd (get photos tc0 ''/pics/small.png''))) = Inr self'
        \<and> cache self' (''/pics/small.png'', 128, 128) = Some (Pixmap ''text-x-generic'' 128 128))"
proof -
  have c: "cache (fst (snd (get photos tc0 ''/pics/small.png''))) (''/pics/small.png'', 128, 128)
     = Some (Pixmap ''text-x-generic'' 128 128)"
    by (simp add: photos_small)
  show ?thesis
    using c
      cache_entries_persist[where im = corrupted
        and self = "fst (snd (get photos tc0 ''/pics/small.png''))"
        and p = "''/pics/large.jpg''"
        and calls = "[(corrupted, ''/pics/large.jpg''), (repaired, ''/pics/small.png'')]"]
    by (auto split: prod.splits)
qed

subsection \<open>A placeholder is cached like a thumbnail\<close>

text \<open>
  Claim C9. When \<^verbatim>\<open>get\<close> misses the cache and the decoding fails (Pillow is not
  available, or a call of the \<^verbatim>\<open>try\<close> block raises, or Qt loads a null pixmap), the
  placeholder that it returns is stored under the key \<^verbatim>\<open>(path, size)\<close>. After any
  further run of calls of \<^verbatim>\<open>get\<close> on the cache, a call with the same path returns that
  placeholder, opens no file and changes nothing, in every state of the libraries and
  of the files: also when the file has become an image that decodes.
\<close>

theorem placeholder_is_cached:
  "(cache self (p, thumb_size self) = None \<and>
      (\<not> Image im \<or> fst (make_thumbnail_try im (thumb_size self) p) = Inl e) \<longrightarrow>
      (\<exists>self1 opened.
         get im self p = (Inr (fromTheme_pixmap im ''text-x-generic'' (thumb_size self)), self1, opened) \<and>
         cache self1 (p, thumb_size self1) = Some (fromTheme_pixmap im ''text-x-generic'' (thumb_size self)) \<and>
         (\<forall>calls self2 im'. gets calls self1 = Inr self2 \<longrightarrow>
            get im' self2 p = (Inr (fromTheme_pixmap im ''text-x-generic'' (thumb_size self)), self2, []))))
   \<and> (cache self (p, thumb_size self) = None \<and> Image im \<and>
      fst (make_thumbnail_try im (thumb_size self) p) = Inr t \<and> isNull (QPixmap im p) \<longrightarrow>
      (\<exists>self1 opened.
         get im self p = (Inr (fromTheme_pixmap im ''image-x-generic'' (thumb_size self)), self1, opened) \<and>
         cache self1 (p, thumb_size self1) = Some (fromTheme_pixmap im ''image-x-generic'' (thumb_size self)) \<and>
         (\<forall>calls self2 im'. gets calls self1 = Inr self2 \<longrightarrow>
            get im' self2 p = (Inr (fromTheme_pixmap im ''image-x-generic'' (thumb_size self)), self2, []))))"
proof (intro conjI impI)
  assume h: "cache self (p, thumb_size self) = None \<and>
      (\<not> Image im \<or> fst (make_thumbnail_try im (thumb_size self) p) = Inl e)"
  then have m: "fst (make_thumbnail im self p)
      = Inr (fromTheme_pixmap im ''text-x-generic'' (thumb_size self))"
    using make_thumbnail_no_pillow[of im self p] make_thumbnail_raised[of im self p e]
    by (cases "Image im") auto
  from h have miss: "cache self (p, thumb_size self) = None" by simp
  show "\<exists>self1 opened.
         get im self p = (Inr (fromTheme_pixmap im ''text-x-generic'' (thumb_size self)), self1, opened) \<and>
         cache self1 (p, thumb_size self1) = Some (fromTheme_pixmap im ''text-x-generic'' (thumb_size self)) \<and>
         (\<forall>calls self2 im'. gets calls self1 = Inr self2 \<longrightarrow>
            get im' self2 p = (Inr (fromTheme_pixmap im ''text-x-generic'' (thumb_size self)), self2, []))"
    by (rule miss_then_hits[OF miss m])
next
  assume h: "cache self (p, thumb_size self) = None \<and> Image im \<and>
      fst (make_thumbnail_try im (thumb_size self) p) = Inr t \<and> isNull (QPixmap im p)"
  then have "t = fromTheme_pixmap im ''image-x-generic'' (thumb_size self)"
    using make_thumbnail_try_returned[of im "thumb_size self" p t] by simp
  with h have m: "fst (make_thumbnail im self p)
      = Inr (fromTheme_pixmap im ''image-x-generic'' (thumb_size self))"
    using make_thumbnail_returned[of im self p t] by simp
  from h have miss: "cache self (p, thumb_size self) = None" by simp
  show "\<exists>self1 opened.
         get im self p = (Inr (fromTheme_pixmap im ''image-x-generic'' (thumb_size self)), self1, opened) \<and>
         cache self1 (p, thumb_size self1) = Some (fromTheme_pixmap im ''image-x-generic'' (thumb_size self)) \<and>
         (\<forall>calls self2 im'. gets calls self1 = Inr self2 \<longrightarrow>
            get im' self2 p = (Inr (fromTheme_pixmap im ''image-x-generic'' (thumb_size self)), self2, []))"
    by (rule miss_then_hits[OF miss m])
qed

theorem placeholder_is_cached_witness:
  "cache tc0 (''/pics/notes.txt'', thumb_size tc0) = None
   \<and> fst (make_thumbnail_try photos (thumb_size tc0) ''/pics/notes.txt'') = Inl Exception
   \<and> Image_open repaired ''/pics/notes.txt'' = Inr (10, 10)
   \<and> QPixmap repaired ''/pics/notes.txt'' = Pixmap ''/pics/notes.txt'' 10 10
   \<and> (\<exists>self1 opened.
         get photos tc0 ''/pics/notes.txt'' = (Inr (Pixmap ''text-x-generic'' 128 128), self1, opened) \<and>
         get repaired self1 ''/pics/notes.txt'' = (Inr (Pixmap ''text-x-generic'' 128 128), self1, []))"
proof -
  have g: "gets [] s = Inr s" for s :: ThumbnailCache by simp
  show ?thesis
    using tc0_empty tc0_size photos_try_notes photos_facts repaired_facts
      placeholder_is_cached[of tc0 "''/pics/notes.txt''" photos Exception NullPixmap]
    by (auto dest: spec[where x = "[]"])
qed

subsection \<open>No thumbnail is produced\<close>

text \<open>
  Claim C6 says that for an image file that decodes, \<^verbatim>\<open>get\<close> returns the image scaled
  to the thumbnail size with its aspect ratio kept and without enlarging it. The code
  does not do that. \<^verbatim>\<open>_make_thumbnail\<close> opens the image with Pillow, makes the Pillow
  thumbnail and converts it, and then raises \<^verbatim>\<open>TypeError\<close> on line 83, inside the
  \<^verbatim>\<open>try\<close> block; \<^verbatim>\<open>except Exception\<close> catches it, so the method returns the generic
  text icon for every file and never reaches \<^verbatim>\<open>QPixmap(path)\<close> and \<^verbatim>\<open>scaled\<close>. For
  \<^verbatim>\<open>small.png\<close> (64 by 32 pixels) and \<^verbatim>\<open>large.jpg\<close> (4000 by 3000 pixels), which Pillow
  and Qt both read, \<^verbatim>\<open>get\<close> at the size 128 by 128 returns and stores the placeholder of
  128 by 128 pixels, after opening the file once, with Pillow.
\<close>

theorem thumbnail_is_never_produced:
  "make_thumbnail im self p =
     (Inr (fromTheme_pixmap im ''text-x-generic'' (thumb_size self)), if Image im then [p] else [])
   \<and> Image photos \<and> thumb_size tc0 = (128, 128)
   \<and> Image_open photos ''/pics/small.png'' = Inr (64, 32)
   \<and> QPixmap photos ''/pics/small.png'' = Pixmap ''/pics/small.png'' 64 32
   \<and> get photos tc0 ''/pics/small.png'' =
       (Inr (Pixmap ''text-x-generic'' 128 128),
        tc0\<lparr>cache := (cache tc0)((''/pics/small.png'', 128, 128) \<mapsto> Pixmap ''text-x-generic'' 128 128)\<rparr>,
        [''/pics/small.png''])
   \<and> Image_open photos ''/pics/large.jpg'' = Inr (4000, 3000)
   \<and> QPixmap photos ''/pics/large.jpg'' = Pixmap ''/pics/large.jpg'' 4000 3000
   \<and> get photos tc0 ''/pics/large.jpg'' =
       (Inr (Pixmap ''text-x-generic'' 128 128),
        tc0\<lparr>cache := (cache tc0)((''/pics/large.jpg'', 128, 128) \<mapsto> Pixmap ''text-x-generic'' 128 128)\<rparr>,
        [''/pics/large.jpg''])"
  using make_thumbnail_placeholder[of im self p] photos_facts(1,3,5,6,7) tc0_size
    photos_small photos_large
  by simp

end
